theory Spec2Isabelle
  imports Complex_Main
begin

section \<open>Numeric layer\<close>

text \<open>
  The Python sources compute on numpy arrays and torch tensors of floating-point numbers.
  The model idealises the scalars as real numbers and represents a one-dimensional array
  as a list and a two-dimensional array as a list of rows. Every exception the sources
  can raise is a value of \<open>py_error\<close>. A floating-point division by zero does not raise
  in numpy: it yields \<open>inf\<close> or \<open>nan\<close>, which the real numbers do not have, so the model
  reports it as the outcome \<open>NonFinite\<close>.
\<close>

datatype py_error = IndexError | ValueError | ZeroDivisionError | StopIteration
  | RuntimeError | NonFinite

type_synonym vec = "real list"

type_synonym mat = "real list list"

text \<open>The slice \<open>xs[i:j]\<close> for \<open>0 \<le> i \<le> j\<close>; Python clamps both bounds to the length.\<close>

definition slice :: "nat \<Rightarrow> nat \<Rightarrow> 'a list \<Rightarrow> 'a list" where
  "slice i j xs = take (j - i) (drop i xs)"

text \<open>
  An elementwise binary operation on one-dimensional arrays, with numpy's broadcasting:
  equal lengths combine pointwise, an array of length one is stretched, any other pair of
  lengths raises \<open>ValueError\<close>.
\<close>

definition np_binop :: "(real \<Rightarrow> real \<Rightarrow> real) \<Rightarrow> vec \<Rightarrow> vec \<Rightarrow> py_error + vec" where
  "np_binop f xs ys =
     (if length xs = length ys then Inr (map2 f xs ys)
      else if length xs = 1 then Inr (map (f (hd xs)) ys)
      else if length ys = 1 then Inr (map (\<lambda>x. f x (hd ys)) xs)
      else Inl ValueError)"

text \<open>\<open>v.dot(w)\<close> on one-dimensional arrays of the same length.\<close>

definition dot :: "vec \<Rightarrow> vec \<Rightarrow> real" where
  "dot xs ys = sum_list (map2 (*) xs ys)"

section \<open>The low-level linear predictor (numpy\_simple.py)\<close>

definition simple_net :: "vec \<Rightarrow> vec \<Rightarrow> py_error + vec" where
  "simple_net u w =
     (if length u < 2 \<or> length w < 6 then Inl IndexError
      else
        let u1 = u ! 0; u2 = u ! 1;
            w11 = w ! 0; w12 = w ! 1; w13 = w ! 2;
            w21 = w ! 3; w22 = w ! 4; w23 = w ! 5;
            y1 = w11 * u1 + w12 * u2 + w13;
            y2 = w21 * u1 + w22 * u2 + w23
        in Inr [y1, y2])"

definition loss :: "vec \<Rightarrow> vec \<Rightarrow> vec \<Rightarrow> real \<Rightarrow> real \<Rightarrow> real \<Rightarrow> py_error + real" where
  "loss x u yh a b c =
     (let n = length x div 2;
          w = slice 0 n x;
          dw = slice n (2 * n) x
      in case simple_net u w of
           Inl e \<Rightarrow> Inl e
         | Inr y \<Rightarrow>
             (case np_binop (-) yh y of
                Inl e \<Rightarrow> Inl e
              | Inr J \<Rightarrow> Inr (a * dot J J + b * dot dw dw + c * dot w w)))"

definition gradient :: "vec \<Rightarrow> vec \<Rightarrow> vec \<Rightarrow> real \<Rightarrow> real \<Rightarrow> real \<Rightarrow> py_error + vec" where
  "gradient x u yh a b c =
     (let n = length x div 2;
          w = slice 0 n x;
          dw = slice n (2 * n) x
      in if length u < 2 \<or> length yh < 2 \<or> length w < 6 then Inl IndexError
         else
           let u1 = u ! 0; u2 = u ! 1;
               yh1 = yh ! 0; yh2 = yh ! 1;
               w11 = w ! 0; w12 = w ! 1; w13 = w ! 2;
               w21 = w ! 3; w22 = w ! 4; w23 = w ! 5
           in case simple_net u w of
                Inl e \<Rightarrow> Inl e
              | Inr y \<Rightarrow>
                  if length dw < 6 then Inl IndexError
                  else
                    let dJ_w = map ((*) (2 * a))
                                 [u1 * (y ! 0 - yh1), u2 * (y ! 0 - yh1), y ! 0 - yh1,
                                  u1 * (y ! 1 - yh2), u2 * (y ! 1 - yh2), y ! 1 - yh2];
                        dJ_dw = [2 * b * dw ! 0, 2 * b * dw ! 1, 2 * b * dw ! 2,
                                 2 * b * dw ! 3, 2 * b * dw ! 4, 2 * b * dw ! 5];
                        dJ = dJ_w @ dJ_dw;
                        dJr = [2 * c * w11, 2 * c * w12, 2 * c * w13,
                               2 * c * w21, 2 * c * w22, 2 * c * w23, 0, 0, 0, 0, 0, 0]
                    in np_binop (+) dJ dJr)"

text \<open>
  The time argument \<open>t\<close> is unused, as in the source. With \<open>b = 0\<close> numpy divides by
  zero without raising; the shape check of the subtraction comes first.
\<close>

definition hamiltonian_model ::
  "vec \<Rightarrow> real \<Rightarrow> vec \<Rightarrow> vec \<Rightarrow> real \<Rightarrow> real \<Rightarrow> real \<Rightarrow> real \<Rightarrow> py_error + vec" where
  "hamiltonian_model x t u yh beta a b c =
     (let n = length x div 2
      in case gradient x u yh a b c of
           Inl e \<Rightarrow> Inl e
         | Inr dJ \<Rightarrow>
             (let dwdt = map (\<lambda>v. v / b) (slice n (2 * n) dJ)
              in (case np_binop (-) (map uminus (slice 0 n dJ))
                         (map (\<lambda>v. beta * v / b) (slice n (2 * n) dJ)) of
                    Inl e \<Rightarrow> Inl e
                  | Inr ddwdt \<Rightarrow> if b = 0 then Inl NonFinite else Inr (dwdt @ ddwdt))))"

text \<open>
  The loop \<open>for i in range(bs)\<close> of \<open>loss_batch\<close>, over the indices still to visit, with
  the running total \<open>J_tot\<close>. \<open>U[i]\<close> and \<open>Yh[i]\<close> raise \<open>IndexError\<close> out of range.
\<close>

primrec loss_batch_loop ::
  "nat list \<Rightarrow> vec \<Rightarrow> vec list \<Rightarrow> vec list \<Rightarrow> real \<Rightarrow> real \<Rightarrow> real \<Rightarrow> real \<Rightarrow> py_error + real" where
  "loss_batch_loop [] x U Yh a b c J_tot = Inr J_tot"
| "loss_batch_loop (i # rest) x U Yh a b c J_tot =
     (if length U \<le> i \<or> length Yh \<le> i then Inl IndexError
      else case loss x (U ! i) (Yh ! i) a b c of
             Inl e \<Rightarrow> Inl e
           | Inr l \<Rightarrow> loss_batch_loop rest x U Yh a b c (J_tot + l))"

text \<open>\<open>J_tot/bs\<close> is a Python division: with \<open>bs = 0\<close> it raises \<open>ZeroDivisionError\<close>.\<close>

definition loss_batch ::
  "nat \<Rightarrow> vec \<Rightarrow> vec list \<Rightarrow> vec list \<Rightarrow> real \<Rightarrow> real \<Rightarrow> real \<Rightarrow> py_error + real" where
  "loss_batch bs x U Yh a b c =
     (case loss_batch_loop [0..<bs] x U Yh a b c 0 of
        Inl e \<Rightarrow> Inl e
      | Inr J_tot \<Rightarrow> if bs = 0 then Inl ZeroDivisionError else Inr (J_tot / real bs))"

primrec gradient_batch_loop ::
  "nat list \<Rightarrow> vec \<Rightarrow> vec list \<Rightarrow> vec list \<Rightarrow> real \<Rightarrow> real \<Rightarrow> real \<Rightarrow> vec \<Rightarrow> py_error + vec" where
  "gradient_batch_loop [] x U Yh a b c dJ_tot = Inr dJ_tot"
| "gradient_batch_loop (i # rest) x U Yh a b c dJ_tot =
     (if length U \<le> i \<or> length Yh \<le> i then Inl IndexError
      else case gradient x (U ! i) (Yh ! i) a b c of
             Inl e \<Rightarrow> Inl e
           | Inr g \<Rightarrow>
               (case np_binop (+) dJ_tot g of
                  Inl e \<Rightarrow> Inl e
                | Inr s \<Rightarrow> gradient_batch_loop rest x U Yh a b c s))"

text \<open>
  \<open>dJ_tot/bs\<close> divides a numpy array: with \<open>bs = 0\<close> a non-empty array becomes \<open>nan\<close>
  and an empty one stays empty.
\<close>

definition gradient_batch ::
  "nat \<Rightarrow> vec \<Rightarrow> vec list \<Rightarrow> vec list \<Rightarrow> real \<Rightarrow> real \<Rightarrow> real \<Rightarrow> py_error + vec" where
  "gradient_batch bs x U Yh a b c =
     (let n = length x div 2
      in case gradient_batch_loop [0..<bs] x U Yh a b c (replicate (2 * n) 0) of
           Inl e \<Rightarrow> Inl e
         | Inr dJ_tot \<Rightarrow>
             if bs = 0 \<and> dJ_tot \<noteq> [] then Inl NonFinite
             else Inr (map (\<lambda>v. v / real bs) dJ_tot))"

text \<open>Two-dimensional arrays: \<open>np.zeros((n, n))\<close>, \<open>np.eye(n)\<close>, \<open>hstack\<close>, \<open>vstack\<close>.\<close>

definition np_zeros2 :: "nat \<Rightarrow> nat \<Rightarrow> mat" where
  "np_zeros2 r k = replicate r (replicate k 0)"

definition np_eye :: "nat \<Rightarrow> mat" where
  "np_eye n = map (\<lambda>i. map (\<lambda>j. if i = j then 1 else 0) [0..<n]) [0..<n]"

definition mat_scale :: "real \<Rightarrow> mat \<Rightarrow> mat" where
  "mat_scale s A = map (map ((*) s)) A"

definition mat_neg :: "mat \<Rightarrow> mat" where
  "mat_neg A = map (map uminus) A"

definition hstack2 :: "mat \<Rightarrow> mat \<Rightarrow> mat" where
  "hstack2 A B = map2 (@) A B"

definition vstack2 :: "mat \<Rightarrow> mat \<Rightarrow> mat" where
  "vstack2 A B = A @ B"

text \<open>The matrix \<open>F\<close> assembled in the first lines of \<open>ham_mod_batch\<close>.\<close>

definition F_dense :: "nat \<Rightarrow> real \<Rightarrow> mat" where
  "F_dense n beta =
     (let On = np_zeros2 n n;
          In = np_eye n;
          B = mat_scale beta (np_eye n)
      in vstack2 (hstack2 On In) (hstack2 (mat_neg In) (mat_neg B)))"

text \<open>
  \<open>F.dot(dJ)\<close> for \<open>F\<close> with \<open>k\<close> columns: numpy raises \<open>ValueError\<close> unless \<open>dJ\<close> has \<open>k\<close>
  entries.
\<close>

definition mat_vec :: "nat \<Rightarrow> mat \<Rightarrow> vec \<Rightarrow> py_error + vec" where
  "mat_vec k F v = (if length v = k then Inr (map (\<lambda>row. dot row v) F) else Inl ValueError)"

definition ham_mod_batch ::
  "vec \<Rightarrow> real \<Rightarrow> nat \<Rightarrow> vec list \<Rightarrow> vec list \<Rightarrow> real \<Rightarrow> real \<Rightarrow> real \<Rightarrow> real \<Rightarrow> py_error + vec" where
  "ham_mod_batch x t bs U Yh beta a b c =
     (let n = length x div 2;
          F = F_dense n beta
      in case gradient_batch bs x U Yh a b c of
           Inl e \<Rightarrow> Inl e
         | Inr dJ \<Rightarrow> mat_vec (2 * n) F dJ)"

text \<open>
  The loop of the evaluator \<open>test\<close>. The network is applied to \<open>Xh[i]\<close> with the whole
  state \<open>x\<close> as its weight argument, of which it reads the first six entries; the reference
  row \<open>yh[i]\<close> is read only when the first output is the larger one (\<open>and\<close> evaluates its
  second operand lazily).
\<close>

primrec test_loop :: "nat list \<Rightarrow> vec \<Rightarrow> vec list \<Rightarrow> vec list \<Rightarrow> nat \<Rightarrow> py_error + nat" where
  "test_loop [] x Xh yh count_predicted = Inr count_predicted"
| "test_loop (i # rest) x Xh yh count_predicted =
     (if length Xh \<le> i then Inl IndexError
      else case simple_net (Xh ! i) x of
             Inl e \<Rightarrow> Inl e
           | Inr y \<Rightarrow>
               if y ! 0 > y ! 1 then
                 (if length (yh ! i) < 2 then Inl IndexError
                  else if yh ! i ! 0 > yh ! i ! 1
                       then test_loop rest x Xh yh (count_predicted + 1)
                       else test_loop rest x Xh yh count_predicted)
               else test_loop rest x Xh yh count_predicted)"

text \<open>
  The flags \<open>trained\<close> and \<open>train_test\<close> only select the message that is printed.
  \<open>count_predicted*100./n\<close> is a Python float division: \<open>n = 0\<close> raises.
\<close>

definition test :: "vec \<Rightarrow> vec list \<Rightarrow> vec list \<Rightarrow> bool \<Rightarrow> bool \<Rightarrow> py_error + real" where
  "test x Xh yh trained train_test =
     (let n = length yh
      in case test_loop [0..<n] x Xh yh 0 of
           Inl e \<Rightarrow> Inl e
         | Inr count_predicted \<Rightarrow>
             if n = 0 then Inl ZeroDivisionError
             else Inr (real count_predicted * 100 / real n))"

section \<open>The high-level wrapper (phnn.py)\<close>

subsection \<open>Tensors and predictors\<close>

text \<open>
  A torch tensor is its shape and its entries in row-major order; a well-formed tensor has
  as many entries as the product of its shape. The entry type is a parameter: the state
  codec moves entries without computing on them.
\<close>

datatype 'a tensor = Tensor (shape: "nat list") (data: "'a list")

definition numel :: "'a tensor \<Rightarrow> nat" where
  "numel t = prod_list (shape t)"

text \<open>\<open>t.view(-1)\<close> of a contiguous tensor.\<close>

definition view_flat :: "'a tensor \<Rightarrow> 'a list" where
  "view_flat t = data t"

text \<open>\<open>w.view(shp)\<close> of a one-dimensional tensor: torch raises unless the sizes agree.\<close>

definition view :: "'a list \<Rightarrow> nat list \<Rightarrow> py_error + 'a tensor" where
  "view w shp = (if length w = prod_list shp then Inr (Tensor shp w) else Inl RuntimeError)"

text \<open>
  The predictor is an external \<open>nn.Module\<close>. The wrapper reads it through
  \<open>parameters()\<close> and \<open>state_dict()\<close>, so the model keeps what these return: the
  registered tensors under their keys, in the order of \<open>state_dict()\<close>, each either a
  trainable parameter or a persistent buffer. \<open>parameters()\<close> yields the parameters in that
  order. The \<open>MLP\<close> of predictors.py registers linear layers only and has no buffer.
\<close>

datatype kind = Parameter | Buffer

type_synonym 'a predictor = "(string \<times> kind \<times> 'a tensor) list"

definition parameters :: "'a predictor \<Rightarrow> 'a tensor list" where
  "parameters p = map (\<lambda>(key, k, t). t) (filter (\<lambda>(key, k, t). k = Parameter) p)"

definition state_dict :: "'a predictor \<Rightarrow> (string \<times> 'a tensor) list" where
  "state_dict p = map (\<lambda>(key, k, t). (key, t)) p"

text \<open>
  \<open>load_state_dict\<close> into an instance with the registered tensors \<open>p\<close>: torch raises on a
  missing key, an unexpected key or a shape that differs, and otherwise overwrites every
  registered tensor.
\<close>

definition load_state_dict ::
  "'a predictor \<Rightarrow> (string \<times> 'a tensor) list \<Rightarrow> py_error + 'a predictor" where
  "load_state_dict p d =
     (if set (map fst d) \<noteq> set (map fst p)
         \<or> list_ex (\<lambda>(key, k, t). case map_of d key of None \<Rightarrow> True
                                      | Some v \<Rightarrow> shape v \<noteq> shape t) p
      then Inl RuntimeError
      else Inr (map (\<lambda>(key, k, t). (key, k, the (map_of d key))) p))"

text \<open>The assignment \<open>d[key] = v\<close> on a Python dictionary, which keeps insertion order.\<close>

primrec dict_set :: "('k \<times> 'v) list \<Rightarrow> 'k \<Rightarrow> 'v \<Rightarrow> ('k \<times> 'v) list" where
  "dict_set [] key v = [(key, v)]"
| "dict_set (e # d) key v = (if fst e = key then (key, v) # d else e # dict_set d key v)"

subsection \<open>The object and its state codec\<close>

text \<open>
  The attributes of a \<open>PHNN\<close> object that the modelled methods read or write. The
  recording buffers \<open>pLoss\<close>, \<open>pW\<close> and \<open>pWdot\<close> serve the plots only and are left out.
\<close>

record 'a phnn =
  self_predictor :: "'a predictor"
  self_len :: nat
  self_lenp :: nat
  self_hparams :: "'a list"
  self_dJ :: "'a tensor list"
  self_dJddw :: "'a list"
  self_beta :: 'a
  self_flat_w :: "'a list"
  self_flat_wdot :: "'a list"
  self_flat_dJ :: "'a list"
  self_flat_dJddw :: "'a list"
  self_count :: nat
  self_time :: nat

text \<open>
  The loop of \<open>flattenParamVector\<close>: \<open>k\<close> iterations remain, \<open>itr\<close> is the iterator over
  the parameters, and \<open>next\<close> raises \<open>StopIteration\<close> when it is exhausted.
\<close>

fun flatten_loop :: "nat \<Rightarrow> 'a tensor list \<Rightarrow> 'a list \<Rightarrow> py_error + 'a list" where
  "flatten_loop 0 itr w = Inr w"
| "flatten_loop (Suc k) [] w = Inl StopIteration"
| "flatten_loop (Suc k) (p # itr) w = flatten_loop k itr (w @ view_flat p)"

definition flattenParamVector :: "'a phnn \<Rightarrow> py_error + 'a list" where
  "flattenParamVector self =
     (case parameters (self_predictor self) of
        [] \<Rightarrow> Inl StopIteration
      | p # itr \<Rightarrow> flatten_loop (self_lenp self - 1) itr (view_flat p))"

text \<open>
  The loop of \<open>makeStateDict\<close> over the entries of \<open>state_dict()\<close>, with the offset \<open>k\<close>
  and the dictionary \<open>d\<close> built so far.
\<close>

primrec makeStateDict_loop ::
  "(string \<times> 'a tensor) list \<Rightarrow> 'a list \<Rightarrow> nat \<Rightarrow> (string \<times> 'a tensor) list
     \<Rightarrow> py_error + (string \<times> 'a tensor) list" where
  "makeStateDict_loop [] flat_w k d = Inr d"
| "makeStateDict_loop (e # rest) flat_w k d =
     (let num_el = numel (snd e)
      in case view (slice k (k + num_el) flat_w) (shape (snd e)) of
           Inl err \<Rightarrow> Inl err
         | Inr v \<Rightarrow> makeStateDict_loop rest flat_w (k + num_el) (dict_set d (fst e) v))"

definition makeStateDict :: "'a phnn \<Rightarrow> py_error + (string \<times> 'a tensor) list" where
  "makeStateDict self =
     makeStateDict_loop (state_dict (self_predictor self)) (self_flat_w self) 0 []"

text \<open>
  The constructor, as far as the modelled attributes go. The predictor instance stands
  for \<open>p_type(*p_args)\<close>, and \<open>rand\<close> for \<open>torch.rand\<close>, which draws a tensor of the
  given size.
\<close>

definition PHNN_init ::
  "'a predictor \<Rightarrow> 'a list \<Rightarrow> 'a \<Rightarrow> (nat \<Rightarrow> 'a list) \<Rightarrow> py_error + 'a phnn" where
  "PHNN_init p hparams beta rand =
     (let self = \<lparr> self_predictor = p,
                   self_len = length (state_dict p),
                   self_lenp = length (parameters p),
                   self_hparams = hparams,
                   self_dJ = [], self_dJddw = [],
                   self_beta = beta,
                   self_flat_w = [], self_flat_wdot = [],
                   self_flat_dJ = [], self_flat_dJddw = [],
                   self_count = 0, self_time = 0 \<rparr>
      in case flattenParamVector self of
           Inl e \<Rightarrow> Inl e
         | Inr w \<Rightarrow> Inr (self \<lparr> self_flat_w := w, self_flat_wdot := rand (length w) \<rparr>))"

definition assignNewState :: "'a phnn \<Rightarrow> 'a list \<Rightarrow> 'a phnn" where
  "assignNewState self xi =
     (let self1 = self \<lparr> self_flat_w := slice 0 (length (self_flat_w self)) xi \<rparr>
      in self1 \<lparr> self_flat_wdot :=
                   slice (length (self_flat_w self1)) (2 * length (self_flat_w self1)) xi \<rparr>)"

text \<open>
  \<open>loadStateDict\<close> replaces the predictor by a fresh instance of the same class and loads
  the new dictionary into it. The fresh instance registers the same keys, kinds and
  shapes as the old one, and loading overwrites all its tensors.
\<close>

definition loadStateDict :: "'a phnn \<Rightarrow> py_error + 'a phnn" where
  "loadStateDict self =
     (case makeStateDict self of
        Inl e \<Rightarrow> Inl e
      | Inr new_state_dict \<Rightarrow>
          (case load_state_dict (self_predictor self) new_state_dict of
             Inl e \<Rightarrow> Inl e
           | Inr p \<Rightarrow> Inr (self \<lparr> self_predictor := p \<rparr>)))"

subsection \<open>The structure matrix\<close>

text \<open>
  A sparse tensor in coordinate format: the index pairs, the values stored at them and
  the size. torch raises unless there are as many values as index pairs and every index
  lies inside the size. An entry of the matrix is the sum of the values stored at its
  index.
\<close>

record sparse =
  indices :: "(nat \<times> nat) list"
  vals :: "real list"
  dims :: "nat \<times> nat"

definition sparse_FloatTensor :: "(nat \<times> nat) list \<Rightarrow> real list \<Rightarrow> nat \<times> nat \<Rightarrow> py_error + sparse" where
  "sparse_FloatTensor i v sz =
     (if length i \<noteq> length v \<or> list_ex (\<lambda>(r, c). fst sz \<le> r \<or> snd sz \<le> c) i
      then Inl RuntimeError
      else Inr \<lparr> indices = i, vals = v, dims = sz \<rparr>)"

definition sparse_entry :: "sparse \<Rightarrow> nat \<Rightarrow> nat \<Rightarrow> real" where
  "sparse_entry S r c = sum_list (map snd (filter (\<lambda>(ix, v). ix = (r, c)) (zip (indices S) (vals S))))"

text \<open>
  The number of stored values that are not zero; when the index pairs are pairwise
  distinct, this is the number of nonzero entries of the matrix.
\<close>

definition nnz :: "sparse \<Rightarrow> nat" where
  "nnz S = length (filter (\<lambda>v. v \<noteq> 0) (vals S))"

definition makeFMatrix :: "real phnn \<Rightarrow> py_error + sparse" where
  "makeFMatrix self =
     (let n = length (self_flat_wdot self);
          i1 = (0, n) # map (\<lambda>i. (i, n + i)) [1..<n];
          i2 = (n, 0) # map (\<lambda>i. (n + i, i)) [1..<n];
          i3 = (n, n) # map (\<lambda>i. (n + i, n + i)) [1..<n];
          i = i1 @ i2 @ i3;
          v = replicate n 1 @ map ((*) (- 1)) (replicate n 1)
                @ map ((*) (- self_beta self)) (replicate n 1)
      in sparse_FloatTensor i v (2 * n, 2 * n))"

subsection \<open>The vector field\<close>

text \<open>
  \<open>gradient\<close> of the wrapper. \<open>grads\<close> are the \<open>.grad\<close> tensors that the backward pass
  left on the parameters, in their order. The list comprehension calls \<open>next\<close> once for
  each of the \<open>self.len\<close> entries; \<open>map(add, ..., dJ_reg)\<close> pairs the gradient tensors
  with the entries of the one-dimensional \<open>dJ_reg\<close>, so each gradient tensor receives
  one scalar, added to all its entries.
\<close>

definition PHNN_gradient :: "real phnn \<Rightarrow> real tensor list \<Rightarrow> py_error + real phnn" where
  "PHNN_gradient self grads =
     (if length (self_hparams self) < 3 then Inl IndexError
      else
        let dJddw = map ((*) (2 * self_hparams self ! 1)) (self_flat_wdot self);
            dJ_reg = map ((*) (2 * self_hparams self ! 2)) (self_flat_w self)
        in if length grads < self_len self then Inl StopIteration
           else
             let dJ = map2 (\<lambda>g r. Tensor (shape g) (map (\<lambda>v. v + r) (data g)))
                        (take (self_len self) grads) dJ_reg
             in Inr (self \<lparr> self_dJ := dJ, self_dJddw := dJddw \<rparr>))"

text \<open>The loop of \<open>flattenGradient\<close>; \<open>self.dJ[i]\<close> raises \<open>IndexError\<close> out of range.\<close>

primrec flattenGradient_loop :: "nat list \<Rightarrow> real tensor list \<Rightarrow> vec \<Rightarrow> py_error + vec" where
  "flattenGradient_loop [] dJs dJ = Inr dJ"
| "flattenGradient_loop (i # rest) dJs dJ =
     (if length dJs \<le> i then Inl IndexError
      else flattenGradient_loop rest dJs (dJ @ view_flat (dJs ! i)))"

definition flattenGradient :: "real phnn \<Rightarrow> py_error + vec \<times> vec" where
  "flattenGradient self =
     (if self_dJ self = [] then Inl IndexError
      else case flattenGradient_loop [1..<self_len self] (self_dJ self)
                  (view_flat (self_dJ self ! 0)) of
             Inl e \<Rightarrow> Inl e
           | Inr dJ \<Rightarrow> Inr (dJ, self_dJddw self))"

definition assignFlatGradient :: "real phnn \<Rightarrow> py_error + real phnn" where
  "assignFlatGradient self =
     (case flattenGradient self of
        Inl e \<Rightarrow> Inl e
      | Inr (dJ, dJddw) \<Rightarrow> Inr (self \<lparr> self_flat_dJ := dJ, self_flat_dJddw := dJddw \<rparr>))"

definition getConcatGradient :: "real phnn \<Rightarrow> vec" where
  "getConcatGradient self = self_flat_dJ self @ self_flat_dJddw self"

text \<open>
  The slice assignment \<open>xs[i:j] = v\<close> on a tensor: the right-hand side has the size of
  the slice, or one entry that is repeated; torch raises otherwise.
\<close>

definition slice_assign :: "nat \<Rightarrow> nat \<Rightarrow> vec \<Rightarrow> vec \<Rightarrow> py_error + vec" where
  "slice_assign i j xs v =
     (let m = length (slice i j xs)
      in if length v = m then Inr (take i xs @ v @ drop (i + m) xs)
         else if length v = 1 then Inr (take i xs @ replicate m (hd v) @ drop (i + m) xs)
         else Inl RuntimeError)"

text \<open>
  \<open>forward\<close>, the right-hand side handed to the solver. The forward pass of the
  predictor, the criterion and the backward pass are external: \<open>autograd\<close> stands for
  them and returns the gradient tensors of the primary loss for the predictor it is given
  (the data \<open>self.x\<close>, \<open>self.y\<close> and the criterion are fixed inside it). The method returns
  the updated object and \<open>dxdt\<close>.
\<close>

definition PHNN_forward ::
  "(real predictor \<Rightarrow> py_error + real tensor list) \<Rightarrow> real phnn \<Rightarrow> real \<Rightarrow> vec
     \<Rightarrow> py_error + real phnn \<times> vec" where
  "PHNN_forward autograd self t xi =
     (let self1 = assignNewState self xi
      in case loadStateDict self1 of
           Inl e \<Rightarrow> Inl e
         | Inr self2 \<Rightarrow>
             (case autograd (self_predictor self2) of
                Inl e \<Rightarrow> Inl e
              | Inr grads \<Rightarrow>
                  (case PHNN_gradient self2 grads of
                     Inl e \<Rightarrow> Inl e
                   | Inr self3 \<Rightarrow>
                       (case assignFlatGradient self3 of
                          Inl e \<Rightarrow> Inl e
                        | Inr self4 \<Rightarrow>
                            (let grad_flat = getConcatGradient self4;
                                 dxdt0 = replicate (length grad_flat) 0;
                                 n = length dxdt0 div 2
                             in (case slice_assign 0 n dxdt0 (slice n (2 * n) grad_flat) of
                                   Inl e \<Rightarrow> Inl e
                                 | Inr dxdt1 \<Rightarrow>
                                     (case np_binop (-) (map ((*) (- 1)) (slice 0 n grad_flat))
                                             (map ((*) (1 * self_beta self4))
                                                (slice n (2 * n) grad_flat)) of
                                        Inl e \<Rightarrow> Inl e
                                      | Inr rhs \<Rightarrow>
                                          (case slice_assign n (2 * n) dxdt1 rhs of
                                             Inl e \<Rightarrow> Inl e
                                           | Inr dxdt \<Rightarrow>
                                               Inr (self4 \<lparr> self_time := self_time self4 + 1 \<rparr>,
                                                    dxdt)))))))))"

subsection \<open>The accuracy evaluator\<close>

text \<open>
  \<open>torch.max(p, 1)\<close> returns, for every row, the index of its first maximal entry, and
  raises on a row without entries.
\<close>

primrec argmax_loop :: "vec \<Rightarrow> nat \<Rightarrow> nat \<Rightarrow> real \<Rightarrow> nat" where
  "argmax_loop [] i best_i best = best_i"
| "argmax_loop (v # vs) i best_i best =
     (if best < v then argmax_loop vs (Suc i) i v else argmax_loop vs (Suc i) best_i best)"

definition row_argmax :: "vec \<Rightarrow> py_error + nat" where
  "row_argmax row = (case row of [] \<Rightarrow> Inl RuntimeError | v # vs \<Rightarrow> Inr (argmax_loop vs 1 0 v))"

primrec torch_max_idx :: "mat \<Rightarrow> py_error + nat list" where
  "torch_max_idx [] = Inr []"
| "torch_max_idx (row # rows) =
     (case row_argmax row of
        Inl e \<Rightarrow> Inl e
      | Inr i \<Rightarrow> (case torch_max_idx rows of Inl e \<Rightarrow> Inl e | Inr is \<Rightarrow> Inr (i # is)))"

text \<open>The inner loop of \<open>pred_accuracy\<close> over one batch, on the counters \<open>(tot, count)\<close>.\<close>

primrec pred_accuracy_batch :: "nat list \<Rightarrow> nat list \<Rightarrow> int list \<Rightarrow> nat \<times> nat \<Rightarrow> py_error + nat \<times> nat" where
  "pred_accuracy_batch [] idx y tc = Inr tc"
| "pred_accuracy_batch (i # rest) idx y tc =
     (if length y \<le> i then Inl IndexError
      else pred_accuracy_batch rest idx y
             (fst tc + 1, if int (idx ! i) = y ! i then snd tc + 1 else snd tc))"

text \<open>
  The outer loop over the batches of the loader. \<open>fwd\<close> stands for the forward pass of
  the predictor, which is external; it returns one row of class log-probabilities per
  sample.
\<close>

primrec pred_accuracy_loop ::
  "('x \<Rightarrow> mat) \<Rightarrow> ('x \<times> int list) list \<Rightarrow> nat \<times> nat \<Rightarrow> py_error + nat \<times> nat" where
  "pred_accuracy_loop fwd [] tc = Inr tc"
| "pred_accuracy_loop fwd (d # rest) tc =
     (case torch_max_idx (map (map exp) (fwd (fst d))) of
        Inl e \<Rightarrow> Inl e
      | Inr idx \<Rightarrow>
          (case pred_accuracy_batch [0..<length idx] idx (snd d) tc of
             Inl e \<Rightarrow> Inl e
           | Inr tc' \<Rightarrow> pred_accuracy_loop fwd rest tc'))"

text \<open>\<open>count/tot\<close> divides two Python integers: \<open>tot = 0\<close> raises.\<close>

definition pred_accuracy :: "('x \<Rightarrow> mat) \<Rightarrow> ('x \<times> int list) list \<Rightarrow> py_error + real" where
  "pred_accuracy fwd testloader =
     (case pred_accuracy_loop fwd testloader (0, 0) of
        Inl e \<Rightarrow> Inl e
      | Inr (tot, cnt) \<Rightarrow>
          if tot = 0 then Inl ZeroDivisionError else Inr (real cnt / real tot))"

section \<open>The low-level training loop (numpy\_simple.py)\<close>

text \<open>
  \<open>X.reshape(d0, d1, d2)\<close> of a two-dimensional array: the entries in row-major order are
  regrouped, and numpy raises \<open>ValueError\<close> unless the number of entries is \<open>d0 * d1 * d2\<close>.
\<close>

primrec chunk :: "nat \<Rightarrow> nat \<Rightarrow> 'a list \<Rightarrow> 'a list list" where
  "chunk 0 k xs = []"
| "chunk (Suc m) k xs = take k xs # chunk m k (drop k xs)"

definition reshape3 :: "nat \<Rightarrow> nat \<Rightarrow> nat \<Rightarrow> mat \<Rightarrow> py_error + mat list" where
  "reshape3 d0 d1 d2 X =
     (let flat = concat X
      in if length flat = d0 * d1 * d2
         then Inr (chunk d0 d1 (chunk (d0 * d1) d2 flat))
         else Inl ValueError)"

text \<open>
  \<open>scipy.integrate.odeint\<close> is an external solver: the model takes it as a parameter. It
  receives the vector field, the initial state and the time grid, and returns the
  trajectory, one row per time point.
\<close>

type_synonym odeint = "(vec \<Rightarrow> real \<Rightarrow> py_error + vec) \<Rightarrow> vec \<Rightarrow> vec \<Rightarrow> py_error + mat"

text \<open>
  What the training loop relies on, for states of the low-level model: on a vector
  field that returns a derivative of length 12 at every state of length 12, the solver
  returns a trajectory with one row of length 12 for every point of the time grid.
\<close>

definition odeint_contract :: "odeint \<Rightarrow> bool" where
  "odeint_contract ode \<longleftrightarrow>
     (\<forall>f y0 ts.
        length y0 = 12 \<and> (\<forall>x s. length x = 12 \<longrightarrow> (\<exists>d. f x s = Inr d \<and> length d = 12))
        \<longrightarrow> (\<exists>sol. ode f y0 ts = Inr sol \<and> length sol = length ts
                   \<and> (\<forall>r\<in>set sol. length r = 12)))"

text \<open>The loop filling \<open>Ji\<close>: the batch loss at every row of the trajectory.\<close>

primrec Ji_loop ::
  "mat \<Rightarrow> nat \<Rightarrow> vec list \<Rightarrow> vec list \<Rightarrow> real \<Rightarrow> real \<Rightarrow> real \<Rightarrow> py_error + vec" where
  "Ji_loop [] bs U Yh a b c = Inr []"
| "Ji_loop (r # rs) bs U Yh a b c =
     (case loss_batch bs r U Yh a b c of
        Inl e \<Rightarrow> Inl e
      | Inr l \<Rightarrow>
          (case Ji_loop rs bs U Yh a b c of
             Inl e \<Rightarrow> Inl e
           | Inr ls \<Rightarrow> Inr (l # ls)))"

text \<open>
  The inner loop over the batches, on the records \<open>(xf, tf, J)\<close>. \<open>np.vstack((xf, sol))\<close>
  raises \<open>ValueError\<close> unless the rows of \<open>sol\<close> have the twelve columns of \<open>xf\<close>.
\<close>

primrec train_batches ::
  "odeint \<Rightarrow> nat list \<Rightarrow> mat list \<Rightarrow> mat list \<Rightarrow> nat \<Rightarrow> real \<Rightarrow> real \<Rightarrow> real \<Rightarrow> real \<Rightarrow> vec
     \<Rightarrow> mat \<times> vec \<times> vec \<Rightarrow> py_error + mat \<times> vec \<times> vec" where
  "train_batches ode [] Ub Yhb bs a b c beta t st = Inr st"
| "train_batches ode (i # rest) Ub Yhb bs a b c beta t st =
     (case st of (xf, tf, J) \<Rightarrow>
        if length Ub \<le> i \<or> length Yhb \<le> i then Inl IndexError
        else
          (let U = Ub ! i; Yh = Yhb ! i; x0 = last xf
           in (case ode (\<lambda>x s. ham_mod_batch x s bs U Yh beta a b c) x0 t of
                 Inl e \<Rightarrow> Inl e
               | Inr sol \<Rightarrow>
                   if \<not> list_all (\<lambda>r. length r = 12) sol then Inl ValueError
                   else
                     (case Ji_loop sol bs U Yh a b c of
                        Inl e \<Rightarrow> Inl e
                      | Inr Ji \<Rightarrow>
                          train_batches ode rest Ub Yhb bs a b c beta t
                            (xf @ sol, tf @ map (\<lambda>s. s + last tf) t, J @ Ji)))))"

text \<open>The outer loop over the epochs, on the records \<open>(xf, tf, J, xep, Jep)\<close>.\<close>

primrec train_epochs ::
  "odeint \<Rightarrow> nat list \<Rightarrow> nat \<Rightarrow> mat list \<Rightarrow> mat list \<Rightarrow> nat \<Rightarrow> real \<Rightarrow> real \<Rightarrow> real \<Rightarrow> real \<Rightarrow> vec
     \<Rightarrow> mat \<times> vec \<times> vec \<times> mat \<times> vec \<Rightarrow> py_error + mat \<times> vec \<times> vec \<times> mat \<times> vec" where
  "train_epochs ode [] N_batch Ub Yhb bs a b c beta t st = Inr st"
| "train_epochs ode (j # rest) N_batch Ub Yhb bs a b c beta t st =
     (case st of (xf, tf, J, xep, Jep) \<Rightarrow>
        (case train_batches ode [0..<N_batch] Ub Yhb bs a b c beta t (xf, tf, J) of
           Inl e \<Rightarrow> Inl e
         | Inr (xf', tf', J') \<Rightarrow>
             train_epochs ode rest N_batch Ub Yhb bs a b c beta t
               (xf', tf', J', xep @ [last xf'], Jep @ [last J'])))"

text \<open>
  \<open>train\<close> returns \<open>(tf, xf, J, xep, Jep)\<close>. \<open>int(N_tot/bs)\<close> raises \<open>ZeroDivisionError\<close>
  for \<open>bs = 0\<close>; \<open>np.array([[1, ..., 1], x0], dtype='float')\<close> raises \<open>ValueError\<close> unless
  \<open>x0\<close> has twelve entries; \<open>Ub[0]\<close> raises \<open>IndexError\<close> when there is no batch. A slice
  \<open>r[i:-1]\<close> ends one entry before the end.
\<close>

definition train ::
  "odeint \<Rightarrow> mat \<Rightarrow> mat \<Rightarrow> nat \<Rightarrow> nat \<Rightarrow> vec \<Rightarrow> real \<Rightarrow> real \<Rightarrow> real \<Rightarrow> real \<Rightarrow> vec
     \<Rightarrow> py_error + vec \<times> mat \<times> vec \<times> mat \<times> vec" where
  "train ode X y bs epochs x0 a b c beta t =
     (let N_tot = length X
      in if bs = 0 then Inl ZeroDivisionError
         else
           let N_batch = N_tot div bs
           in case reshape3 N_batch bs 2 X of
                Inl e \<Rightarrow> Inl e
              | Inr Ub \<Rightarrow>
                  (case reshape3 N_batch bs 2 y of
                     Inl e \<Rightarrow> Inl e
                   | Inr Yhb \<Rightarrow>
                       if length x0 \<noteq> 12 then Inl ValueError
                       else
                         let xf = [replicate 12 1, x0];
                             tf = [0];
                             J = [0];
                             xep = [replicate 12 1, x0]
                         in if N_batch = 0 then Inl IndexError
                            else
                              (case loss_batch bs x0 (Ub ! 0) (Yhb ! 0) a b c of
                                 Inl e \<Rightarrow> Inl e
                               | Inr Jep \<Rightarrow>
                                   (case train_epochs ode [0..<epochs] N_batch Ub Yhb bs a b c
                                           beta t (xf, tf, J, xep, [Jep]) of
                                      Inl e \<Rightarrow> Inl e
                                    | Inr (xf', tf', J', xep', Jep') \<Rightarrow>
                                        Inr (slice 1 (length tf' - 1) tf',
                                             slice 2 (length xf' - 1) xf',
                                             slice 1 (length J' - 1) J',
                                             slice 1 (length xep' - 1) xep',
                                             Jep')))))"

section \<open>Properties of the vector fields and the structure matrix\<close>

subsection \<open>Explicit forms on a twelve-dimensional state\<close>

lemma vec12: "length (x::'a list) = 12 \<Longrightarrow>
   x = [x!0, x!1, x!2, x!3, x!4, x!5, x!6, x!7, x!8, x!9, x!10, x!11]"
  by (rule nth_equalityI) (auto simp: nth_Cons' less_Suc_eq_le numeral_eq_Suc le_Suc_eq)

lemma vec2: "length (x::'a list) = 2 \<Longrightarrow> x = [x!0, x!1]"
  by (rule nth_equalityI) (auto simp: nth_Cons' less_Suc_eq_le numeral_eq_Suc le_Suc_eq)

lemma replicate_12: "replicate 12 v = [v, v, v, v, v, v, v, v, v, v, v, v]"
  by (simp add: numeral_eq_Suc)

lemma loss_explicit:
  assumes "length x = 12" "2 \<le> length u" "length yh = 2"
  shows "loss x u yh a b c = Inr
     (a * ((yh ! 0 - (x ! 0 * u ! 0 + x ! 1 * u ! 1 + x ! 2)) * (yh ! 0 - (x ! 0 * u ! 0 + x ! 1 * u ! 1 + x ! 2))
         + (yh ! 1 - (x ! 3 * u ! 0 + x ! 4 * u ! 1 + x ! 5)) * (yh ! 1 - (x ! 3 * u ! 0 + x ! 4 * u ! 1 + x ! 5)))
      + b * (x ! 6 * x ! 6 + x ! 7 * x ! 7 + x ! 8 * x ! 8 + x ! 9 * x ! 9 + x ! 10 * x ! 10 + x ! 11 * x ! 11)
      + c * (x ! 0 * x ! 0 + x ! 1 * x ! 1 + x ! 2 * x ! 2 + x ! 3 * x ! 3 + x ! 4 * x ! 4 + x ! 5 * x ! 5))"
proof -
  obtain x0 x1 x2 x3 x4 x5 x6 x7 x8 x9 x10 x11 where x: "x = [x0,x1,x2,x3,x4,x5,x6,x7,x8,x9,x10,x11]"
    using vec12[OF assms(1)] by blast
  obtain y0 y1 where y: "yh = [y0, y1]" using vec2[OF assms(3)] by blast
  show ?thesis using assms(2)
    by (simp add: x y loss_def simple_net_def slice_def np_binop_def dot_def Let_def add.assoc)
qed

lemma gradient_explicit:
  assumes "length x = 12" "2 \<le> length u" "2 \<le> length yh"
  shows "gradient x u yh a b c = Inr
    [2 * a * (u ! 0 * (x ! 0 * u ! 0 + x ! 1 * u ! 1 + x ! 2 - yh ! 0)) + 2 * c * x ! 0,
     2 * a * (u ! 1 * (x ! 0 * u ! 0 + x ! 1 * u ! 1 + x ! 2 - yh ! 0)) + 2 * c * x ! 1,
     2 * a * (x ! 0 * u ! 0 + x ! 1 * u ! 1 + x ! 2 - yh ! 0) + 2 * c * x ! 2,
     2 * a * (u ! 0 * (x ! 3 * u ! 0 + x ! 4 * u ! 1 + x ! 5 - yh ! 1)) + 2 * c * x ! 3,
     2 * a * (u ! 1 * (x ! 3 * u ! 0 + x ! 4 * u ! 1 + x ! 5 - yh ! 1)) + 2 * c * x ! 4,
     2 * a * (x ! 3 * u ! 0 + x ! 4 * u ! 1 + x ! 5 - yh ! 1) + 2 * c * x ! 5,
     2 * b * x ! 6, 2 * b * x ! 7, 2 * b * x ! 8,
     2 * b * x ! 9, 2 * b * x ! 10, 2 * b * x ! 11]"
proof -
  obtain x0 x1 x2 x3 x4 x5 x6 x7 x8 x9 x10 x11 where x: "x = [x0,x1,x2,x3,x4,x5,x6,x7,x8,x9,x10,x11]"
    using vec12[OF assms(1)] by blast
  show ?thesis using assms(2,3)
    by (simp add: x gradient_def simple_net_def slice_def np_binop_def Let_def)
qed

subsection \<open>The closed-form gradient is the derivative of the loss\<close>

text \<open>
  Claim C1. For every state \<open>x\<close> of length 12, inputs \<open>u\<close> (at least two entries, of which
  the first two are read), targets \<open>yh\<close> (two entries) and hyperparameters \<open>a\<close>, \<open>b\<close>, \<open>c\<close>,
  the vector returned by \<open>gradient\<close> is the exact derivative of \<open>loss\<close> with respect to \<open>x\<close>:
  for every coordinate \<open>i\<close>, the loss as a function \<open>J\<close> of the \<open>i\<close>-th entry of the state
  alone has, at \<open>x ! i\<close>, the derivative given by the \<open>i\<close>-th entry of the gradient. The data
  term is differentiated through the linear map, the velocity half is \<open>2 * b * dw\<close> and the
  regularisation \<open>2 * c * w\<close> enters the weight half only (lemma \<open>gradient_explicit\<close>).
\<close>

theorem gradient_is_derivative_of_loss:
  assumes "length x = 12" "2 \<le> length u" "length yh = 2" "i < 12"
  shows "\<exists>J g. (\<forall>h. loss (x[i := h]) u yh a b c = Inr (J h))
              \<and> gradient x u yh a b c = Inr g \<and> length g = 12
              \<and> (J has_real_derivative g ! i) (at (x ! i))"
proof -
  let ?J = "\<lambda>h. projr (loss (x[i := h]) u yh a b c)"
  obtain g where g: "gradient x u yh a b c = Inr g" "length g = 12"
    using assms by (simp add: gradient_explicit)
  have L: "\<forall>h. loss (x[i := h]) u yh a b c = Inr (?J h)"
    using assms by (simp add: loss_explicit)
  obtain x0 x1 x2 x3 x4 x5 x6 x7 x8 x9 x10 x11 where x: "x = [x0,x1,x2,x3,x4,x5,x6,x7,x8,x9,x10,x11]"
    using vec12[OF assms(1)] by blast
  have i: "i = 0 \<or> i = 1 \<or> i = 2 \<or> i = 3 \<or> i = 4 \<or> i = 5 \<or> i = 6 \<or> i = 7 \<or> i = 8 \<or> i = 9
       \<or> i = 10 \<or> i = 11" using assms(4) by arith
  have D: "(?J has_real_derivative g ! i) (at (x ! i))"
    using i g(1) assms(2,3)
    apply (simp add: gradient_explicit[OF assms(1)] loss_explicit[OF _ assms(2,3)] assms(1))
    apply (elim disjE)
    apply (auto simp add: x)
    apply (auto intro!: derivative_eq_intros simp: algebra_simps)
    done
  show ?thesis
    using L g D by (intro exI[of _ ?J] exI[of _ g]) simp
qed

theorem gradient_is_derivative_of_loss_witness:
  "length [1, 0, 0, 0, 1, 0, 0, 0, 0, 0, 0, 0 :: real] = 12 \<and> 2 \<le> length [1, 2 :: real]
   \<and> length [3, 5 :: real] = 2 \<and> (4 :: nat) < 12
   \<and> (\<exists>J g. (\<forall>h. loss ([1, 0, 0, 0, 1, 0, 0, 0, 0, 0, 0, 0][4 := h]) [1, 2] [3, 5] 1 2 3 = Inr (J h))
          \<and> gradient [1, 0, 0, 0, 1, 0, 0, 0, 0, 0, 0, 0] [1, 2] [3, 5] 1 2 3 = Inr g \<and> length g = 12
          \<and> (J has_real_derivative g ! 4) (at ([1, 0, 0, 0, 1, 0, 0, 0, 0, 0, 0, 0] ! 4)))"
  using gradient_is_derivative_of_loss
    [of "[1, 0, 0, 0, 1, 0, 0, 0, 0, 0, 0, 0]" "[1, 2]" "[3, 5]" 4 1 2 3]
  by simp

subsection \<open>The single-sample vector field\<close>

text \<open>
  Claim C2, as amended. For every state \<open>x\<close> of length 12 (six weights and their six
  velocities), inputs and targets with at least two entries and \<open>b \<noteq> 0\<close>, \<open>gradient\<close>
  returns a vector \<open>dJ\<close> of length 12 and \<open>hamiltonian_model\<close> returns the concatenation
  of the weight half \<open>dJ/d(dw) / b\<close> and the velocity half \<open>- dJ/dw - beta * dJ/d(dw) / b\<close>,
  where \<open>dJ/dw\<close> is the first and \<open>dJ/d(dw)\<close> the second half of \<open>dJ\<close>.
\<close>

theorem hamiltonian_model_length_12:
  assumes "length x = 12" "2 \<le> length u" "2 \<le> length yh" "b \<noteq> 0"
  shows "\<exists>dJ. gradient x u yh a b c = Inr dJ \<and> length dJ = 12 \<and>
           hamiltonian_model x t u yh beta a b c =
             Inr (map (\<lambda>v. v / b) (drop 6 dJ)
                  @ map2 (\<lambda>w v. - w - beta * v / b) (take 6 dJ) (drop 6 dJ))"
  using assms
  by (simp add: hamiltonian_model_def gradient_explicit slice_def np_binop_def)

theorem hamiltonian_model_length_12_witness:
  "length [1, 2, 3, 4, 5, 6, 7, 8, 9, 10, 11, 12 :: real] = 12 \<and> 2 \<le> length [1, 2 :: real]
   \<and> 2 \<le> length [3, 4 :: real] \<and> (2 :: real) \<noteq> 0
   \<and> (\<exists>dJ. gradient [1, 2, 3, 4, 5, 6, 7, 8, 9, 10, 11, 12] [1, 2] [3, 4] 1 2 3 = Inr dJ
         \<and> length dJ = 12
         \<and> hamiltonian_model [1, 2, 3, 4, 5, 6, 7, 8, 9, 10, 11, 12] 0 [1, 2] [3, 4] 5 1 2 3 =
             Inr (map (\<lambda>v. v / 2) (drop 6 dJ)
                  @ map2 (\<lambda>w v. - w - 5 * v / 2) (take 6 dJ) (drop 6 dJ)))"
  using hamiltonian_model_length_12
    [of "[1, 2, 3, 4, 5, 6, 7, 8, 9, 10, 11, 12]" "[1, 2]" "[3, 4]" 2 1 3 0 5]
  by simp

text \<open>
  The claim as stated, for every state of even length, fails: \<open>gradient\<close> returns twelve
  entries whatever the length of the state, so on a state of length 14 the two slices
  \<open>dJ[0:7]\<close> and \<open>dJ[7:14]\<close> have seven and five entries and their subtraction raises
  \<open>ValueError\<close>, although \<open>gradient\<close> has returned a value.
\<close>

theorem hamiltonian_model_even_length_counterexample:
  "even (length [1, 2, 3, 4, 5, 6, 7, 8, 9, 10, 11, 12, 13, 14 :: real]) \<and> (2 :: real) \<noteq> 0
   \<and> gradient [1, 2, 3, 4, 5, 6, 7, 8, 9, 10, 11, 12, 13, 14] [1, 2] [3, 4] 1 2 3
       = Inr [16, 32, 28, 56, 94, 68, 32, 36, 40, 44, 48, 52]
   \<and> hamiltonian_model [1, 2, 3, 4, 5, 6, 7, 8, 9, 10, 11, 12, 13, 14] 0 [1, 2] [3, 4] 5 1 2 3
       = Inl ValueError"
  by (simp add: hamiltonian_model_def gradient_def simple_net_def slice_def np_binop_def)

subsection \<open>The batch and the high-level vector field\<close>

lemma map2_map_same: "map2 h (map f xs) (map g xs) = map (\<lambda>x. h (f x) (g x)) xs"
  by (induction xs) auto

lemma replicate_as_map: "replicate n z = map (\<lambda>_. z) [0..<n]"
  by (simp add: map_replicate_const)

lemma F_dense_rows:
  "F_dense n beta =
     map (\<lambda>i. replicate n 0 @ map (\<lambda>j. if i = j then 1 else 0) [0..<n]) [0..<n]
     @ map (\<lambda>i. map (\<lambda>j. - (if i = j then 1 else 0)) [0..<n]
                @ map (\<lambda>j. - (beta * (if i = j then 1 else 0))) [0..<n]) [0..<n]"
  by (simp add: F_dense_def np_zeros2_def np_eye_def mat_scale_def mat_neg_def hstack2_def
      vstack2_def Let_def map2_map_same replicate_as_map[of n "replicate n 0"] o_def
      del: replicate.simps)

lemma dot_append:
  "dot (xs @ ys) v = dot xs (take (length xs) v) + dot ys (drop (length xs) v)"
  by (simp add: dot_def zip_append1)

lemma dot_replicate_0: "dot (replicate n 0) v = 0"
proof (induction n arbitrary: v)
  case 0 show ?case by (simp add: dot_def)
next
  case (Suc n) then show ?case by (cases v) (simp_all add: dot_def)
qed

lemma dot_map_upt:
  "length w = n \<Longrightarrow> dot (map f [0..<n]) w = (\<Sum>j<n. f j * w ! j)"
proof -
  assume l: "length w = n"
  have "zip (map f [0..<n]) w = map (\<lambda>j. (f j, w ! j)) [0..<n]"
    using l by (intro nth_equalityI) auto
  then show ?thesis
    by (simp add: dot_def o_def interv_sum_list_conv_sum_set_nat atLeast0LessThan)
qed

lemma dot_unit:
  "length w = n \<Longrightarrow> i < n \<Longrightarrow> dot (map (\<lambda>j. if i = j then s else 0) [0..<n]) w = s * w ! i"
  by (simp add: dot_map_upt if_distrib[of "\<lambda>z. z * _"] cong: if_cong)

lemma F_dense_apply:
  assumes "length v = 2 * n"
  shows "mat_vec (2 * n) (F_dense n beta) v =
           Inr (drop n v @ map2 (\<lambda>w d. - w - beta * d) (take n v) (drop n v))"
proof -
  have lt: "length (take n v) = n" and ld: "length (drop n v) = n"
    using assms by simp_all
  have top: "map (\<lambda>row. dot row v)
               (map (\<lambda>i. replicate n 0 @ map (\<lambda>j. if i = j then 1 else 0) [0..<n]) [0..<n])
             = drop n v"
    using ld by (intro nth_equalityI) (simp_all add: dot_append dot_replicate_0 dot_unit)
  have neg1: "(\<lambda>j. - (if i = j then 1 else 0 :: real)) = (\<lambda>j. if i = j then - 1 else 0)" for i :: nat
    by auto
  have neg2: "(\<lambda>j. - (beta * (if i = j then 1 else 0))) = (\<lambda>j. if i = j then - beta else 0)"
    for i :: nat
    by auto
  have bot: "map (\<lambda>row. dot row v)
               (map (\<lambda>i. map (\<lambda>j. - (if i = j then 1 else 0)) [0..<n]
                          @ map (\<lambda>j. - (beta * (if i = j then 1 else 0))) [0..<n]) [0..<n])
             = map2 (\<lambda>w d. - w - beta * d) (take n v) (drop n v)"
    using lt ld by (intro nth_equalityI) (simp_all add: dot_append neg1 neg2 dot_unit)
  show ?thesis
    using assms top bot by (simp add: mat_vec_def F_dense_rows)
qed

lemma gradient_length: "gradient x u yh a b c = Inr g \<Longrightarrow> length g = 12"
  by (auto simp: gradient_def Let_def np_binop_def simple_net_def split: if_splits)

lemma np_binop_even_length:
  "np_binop f acc g = Inr s \<Longrightarrow> even (length acc) \<Longrightarrow> length g = 12 \<Longrightarrow> length s = length acc"
  by (auto simp: np_binop_def split: if_splits)

lemma gradient_batch_loop_length:
  "gradient_batch_loop js x U Yh a b c acc = Inr r \<Longrightarrow> even (length acc) \<Longrightarrow>
   length r = length acc"
proof (induction js arbitrary: acc)
  case Nil
  then show ?case by simp
next
  case (Cons i js)
  from Cons.prems(1) obtain g s where
    g: "gradient x (U ! i) (Yh ! i) a b c = Inr g" and
    s: "np_binop (+) acc g = Inr s" and
    r: "gradient_batch_loop js x U Yh a b c s = Inr r"
    by (auto split: if_splits sum.splits)
  have ls: "length s = length acc"
    using np_binop_even_length[OF s Cons.prems(2) gradient_length[OF g]] .
  with Cons.IH[OF r] Cons.prems(2) show ?case by simp
qed

lemma gradient_batch_length:
  "gradient_batch bs x U Yh a b c = Inr dJ \<Longrightarrow> length dJ = 2 * (length x div 2)"
  by (auto simp: gradient_batch_def Let_def split: sum.splits if_splits
      dest!: gradient_batch_loop_length)

lemma forward_assembly:
  assumes "length g = 2 * n"
  shows "slice_assign 0 n (replicate (length g) 0) (slice n (2 * n) g)
           = Inr (drop n g @ replicate n 0)"
    and "np_binop (-) (map ((*) (- 1)) (slice 0 n g)) (map ((*) bt) (slice n (2 * n) g))
           = Inr (map2 (\<lambda>w d. - w - bt * d) (take n g) (drop n g))"
    and "length rhs = n \<Longrightarrow> slice_assign n (2 * n) (drop n g @ replicate n 0) rhs = Inr (drop n g @ rhs)"
proof -
  show "slice_assign 0 n (replicate (length g) 0) (slice n (2 * n) g)
           = Inr (drop n g @ replicate n 0)"
    using assms by (simp add: slice_assign_def slice_def Let_def min_def)
  show "np_binop (-) (map ((*) (- 1)) (slice 0 n g)) (map ((*) bt) (slice n (2 * n) g))
           = Inr (map2 (\<lambda>w d. - w - bt * d) (take n g) (drop n g))"
    using assms by (simp add: np_binop_def slice_def zip_map_map o_def split_def min_def)
  show "length rhs = n \<Longrightarrow> slice_assign n (2 * n) (drop n g @ replicate n 0) rhs = Inr (drop n g @ rhs)"
    using assms by (simp add: slice_assign_def slice_def Let_def min_def)
qed

lemma PHNN_forward_dxdt:
  assumes "PHNN_forward autograd self t xi = Inr (self', dxdt)"
    and "length (getConcatGradient self') = 2 * n"
  shows "dxdt = drop n (getConcatGradient self')
                @ map2 (\<lambda>w d. - w - self_beta self' * d)
                    (take n (getConcatGradient self')) (drop n (getConcatGradient self'))"
proof -
  from assms(1) obtain self4 where
    r: "self' = self4 \<lparr> self_time := self_time self4 + 1 \<rparr>" and
    d: "(let grad_flat = getConcatGradient self4;
             dxdt0 = replicate (length grad_flat) 0;
             n = length dxdt0 div 2
         in case slice_assign 0 n dxdt0 (slice n (2 * n) grad_flat) of
              Inl e \<Rightarrow> Inl e
            | Inr dxdt1 \<Rightarrow>
                (case np_binop (-) (map ((*) (- 1)) (slice 0 n grad_flat))
                        (map ((*) (1 * self_beta self4)) (slice n (2 * n) grad_flat)) of
                   Inl e \<Rightarrow> Inl e
                 | Inr rhs \<Rightarrow>
                     (case slice_assign n (2 * n) dxdt1 rhs of
                        Inl e \<Rightarrow> Inl e
                      | Inr dxdt \<Rightarrow> Inr dxdt))) = Inr dxdt"
    by (auto simp: PHNN_forward_def Let_def split: sum.splits)
  have g: "getConcatGradient self' = getConcatGradient self4" "self_beta self' = self_beta self4"
    by (simp_all add: r getConcatGradient_def)
  let ?g = "getConcatGradient self4"
  have l: "length ?g = 2 * n" using assms(2) g by simp
  have n: "length (replicate (length ?g) (0::real)) div 2 = n" using l by simp
  have lr: "length (map2 (\<lambda>w d. - w - self_beta self4 * d) (take n ?g) (drop n ?g)) = n"
    using l by simp
  show ?thesis
    using d unfolding Let_def n
    by (simp add: forward_assembly(1,2)[OF l] forward_assembly(3)[OF l lr] g)
qed

lemma ham_mod_batch_blocks:
  "ham_mod_batch x t bs U Yh beta a b c =
     (case gradient_batch bs x U Yh a b c of
        Inl e \<Rightarrow> Inl e
      | Inr dJ \<Rightarrow>
          Inr (drop (length x div 2) dJ
               @ map2 (\<lambda>w d. - w - beta * d) (take (length x div 2) dJ) (drop (length x div 2) dJ)))"
  by (auto simp: ham_mod_batch_def Let_def F_dense_apply dest: gradient_batch_length
      split: sum.splits)

text \<open>
  Claim C3. The batch vector field is \<open>F\<close> applied to the batch gradient, with no division
  by \<open>b\<close>: whenever \<open>gradient_batch\<close> returns \<open>dJ\<close> (of length \<open>2 * n\<close> for
  \<open>n = len(x) // 2\<close>), \<open>ham_mod_batch\<close> returns the velocity half of \<open>dJ\<close> followed by
  minus the weight half minus \<open>beta\<close> times the velocity half, and it fails exactly when
  \<open>gradient_batch\<close> does. \<open>PHNN.forward\<close> assembles the same vector from the flat gradient
  \<open>g\<close> of length \<open>2 * n\<close> that the call leaves in the object: what it returns is
  \<open>F @ g\<close> for the dense \<open>F\<close> of \<open>ham_mod_batch\<close>.
\<close>

theorem vector_field_is_F_times_gradient:
  "ham_mod_batch x t bs U Yh beta a b c =
     (case gradient_batch bs x U Yh a b c of
        Inl e \<Rightarrow> Inl e
      | Inr dJ \<Rightarrow>
          Inr (drop (length x div 2) dJ
               @ map2 (\<lambda>w d. - w - beta * d) (take (length x div 2) dJ) (drop (length x div 2) dJ)))
   \<and> (PHNN_forward autograd self s xi = Inr (self', dxdt)
        \<and> length (getConcatGradient self') = 2 * n \<longrightarrow>
        dxdt = drop n (getConcatGradient self')
               @ map2 (\<lambda>w d. - w - self_beta self' * d)
                   (take n (getConcatGradient self')) (drop n (getConcatGradient self'))
        \<and> mat_vec (2 * n) (F_dense n (self_beta self')) (getConcatGradient self') = Inr dxdt)"
  using ham_mod_batch_blocks[of x t bs U Yh beta a b c]
  by (auto simp: F_dense_apply dest: PHNN_forward_dxdt)

theorem vector_field_is_F_times_gradient_witness:
  "ham_mod_batch [1, 2, 3, 4, 5, 6, 7, 8, 9, 10, 11, 12] 0 2 [[1, 2], [0, 1]] [[3, 4], [1, 1]]
       5 1 2 3
     = Inr [28, 32, 36, 40, 44, 48, - 151, - 186, - 207, - 240, - 292, - 302]
   \<and> PHNN_forward (\<lambda>p. Inr [Tensor [2] [10, 20]])
        \<lparr> self_predictor = [(''w'', Parameter, Tensor [2] [1, 2])], self_len = 1, self_lenp = 1,
          self_hparams = [1, 2, 3], self_dJ = [], self_dJddw = [], self_beta = 5,
          self_flat_w = [1, 2], self_flat_wdot = [0, 0], self_flat_dJ = [],
          self_flat_dJddw = [], self_count = 0, self_time = 0 \<rparr> 0 [1, 2, 3, 4]
     = Inr (\<lparr> self_predictor = [(''w'', Parameter, Tensor [2] [1, 2])], self_len = 1,
              self_lenp = 1, self_hparams = [1, 2, 3], self_dJ = [Tensor [2] [16, 26]],
              self_dJddw = [12, 16], self_beta = 5, self_flat_w = [1, 2],
              self_flat_wdot = [3, 4], self_flat_dJ = [16, 26], self_flat_dJddw = [12, 16],
              self_count = 0, self_time = 1 \<rparr>,
            [12, 16, - 76, - 106])"
proof -
  let ?self = "\<lparr> self_predictor = [(''w'', Parameter, Tensor [2] [1, 2])], self_len = 1, self_lenp = 1,
          self_hparams = [1, 2, 3], self_dJ = [], self_dJddw = [], self_beta = 5,
          self_flat_w = [1, 2], self_flat_wdot = [0, 0], self_flat_dJ = [],
          self_flat_dJddw = [], self_count = 0, self_time = 0 \<rparr> :: real phnn"
  let ?self' = "\<lparr> self_predictor = [(''w'', Parameter, Tensor [2] [1, 2])], self_len = 1,
              self_lenp = 1, self_hparams = [1, 2, 3], self_dJ = [Tensor [2] [16, 26]],
              self_dJddw = [12, 16], self_beta = 5, self_flat_w = [1, 2],
              self_flat_wdot = [3, 4], self_flat_dJ = [16, 26], self_flat_dJddw = [12, 16],
              self_count = 0, self_time = 1 \<rparr> :: real phnn"
  have gb: "gradient_batch 2 [1, 2, 3, 4, 5, 6, 7, 8, 9, 10, 11, 12] [[1, 2], [0, 1]]
              [[3, 4], [1, 1]] 1 2 3 = Inr [11, 26, 27, 40, 72, 62, 28, 32, 36, 40, 44, 48]"
    by (simp add: gradient_batch_def gradient_explicit np_binop_def upt_rec replicate_12)
  have fw: "PHNN_forward (\<lambda>p. Inr [Tensor [2] [10, 20]]) ?self 0 [1, 2, 3, 4]
              = Inr (?self', [12, 16, - 76, - 106])"
    by (simp add: PHNN_forward_def
      assignNewState_def loadStateDict_def makeStateDict_def state_dict_def view_def numel_def
      slice_def load_state_dict_def PHNN_gradient_def assignFlatGradient_def
      flattenGradient_def getConcatGradient_def view_flat_def slice_assign_def Let_def
      np_binop_def)
  show ?thesis
    using vector_field_is_F_times_gradient
      [of "[1, 2, 3, 4, 5, 6, 7, 8, 9, 10, 11, 12]" 0 2 "[[1, 2], [0, 1]]" "[[3, 4], [1, 1]]"
          5 1 2 3 "\<lambda>p. Inr [Tensor [2] [10, 20]]" ?self 0 "[1, 2, 3, 4]" ?self'
          "[12, 16, - 76, - 106]" 2] gb fw
    by (simp add: getConcatGradient_def)
qed

subsection \<open>The structure matrix\<close>

lemma upt_from_1: "1 \<le> n \<Longrightarrow> f 0 # map f [1..<n] = map f [0..<n]"
  by (simp add: upt_conv_Cons)

lemma zip_map_replicate: "zip (map f [0..<n]) (replicate n s) = map (\<lambda>i. (f i, s)) [0..<n]"
  by (intro nth_equalityI) auto

lemma makeFMatrix_explicit:
  assumes "1 \<le> length (self_flat_wdot self)"
  shows "makeFMatrix self =
     (let n = length (self_flat_wdot self) in
      Inr \<lparr> indices = map (\<lambda>i. (i, n + i)) [0..<n] @ map (\<lambda>i. (n + i, i)) [0..<n]
                        @ map (\<lambda>i. (n + i, n + i)) [0..<n],
            vals = replicate n 1 @ replicate n (- 1) @ replicate n (- self_beta self),
            dims = (2 * n, 2 * n) \<rparr>)"
proof -
  let ?n = "length (self_flat_wdot self)"
  have i: "(0, ?n) # map (\<lambda>i. (i, ?n + i)) [1..<?n] = map (\<lambda>i. (i, ?n + i)) [0..<?n]"
      "(?n, 0) # map (\<lambda>i. (?n + i, i)) [1..<?n] = map (\<lambda>i. (?n + i, i)) [0..<?n]"
      "(?n, ?n) # map (\<lambda>i. (?n + i, ?n + i)) [1..<?n] = map (\<lambda>i. (?n + i, ?n + i)) [0..<?n]"
    using upt_from_1[OF assms, of "\<lambda>i. (i, ?n + i)"] upt_from_1[OF assms, of "\<lambda>i. (?n + i, i)"]
      upt_from_1[OF assms, of "\<lambda>i. (?n + i, ?n + i)"] by simp_all
  show ?thesis
    unfolding makeFMatrix_def Let_def i
    by (auto simp add: sparse_FloatTensor_def list_ex_iff)
qed

lemma entry_block:
  "sum_list (map snd (filter (\<lambda>(ix, v). ix = (r, c)) (map (\<lambda>i. ((f i, g i), s)) [0..<n])))
     = (\<Sum>i<n. if f i = r \<and> g i = c then s else 0)"
proof -
  have "map snd (filter (\<lambda>(ix, v). ix = (r, c)) (map (\<lambda>i. ((f i, g i), s)) [0..<n]))
        = map (\<lambda>i. s) (filter (\<lambda>i. f i = r \<and> g i = c) [0..<n])"
    by (simp add: filter_map o_def)
  then show ?thesis
    by (simp add: sum_list_map_filter' interv_sum_list_conv_sum_set_nat atLeast0LessThan)
qed

lemma sparse_entry_makeF:
  assumes "makeFMatrix self = Inr S" "1 \<le> length (self_flat_wdot self)" "n = length (self_flat_wdot self)"
  shows "sparse_entry S r c =
           (\<Sum>i<n. if i = r \<and> n + i = c then 1 else 0)
         + ((\<Sum>i<n. if n + i = r \<and> i = c then - 1 else 0)
         + (\<Sum>i<n. if n + i = r \<and> n + i = c then - self_beta self else 0))"
  using assms(1,3) unfolding makeFMatrix_explicit[OF assms(2)] Let_def
  by (auto simp add: sparse_entry_def zip_map_replicate entry_block)

lemma sparse_blocks:
  assumes "makeFMatrix self = Inr S" "1 \<le> length (self_flat_wdot self)"
    "n = length (self_flat_wdot self)" "i < n" "j < n"
  shows "sparse_entry S i j = 0"
    and "sparse_entry S i (n + j) = (if i = j then 1 else 0)"
    and "sparse_entry S (n + i) j = (if i = j then - 1 else 0)"
    and "sparse_entry S (n + i) (n + j) = (if i = j then - self_beta self else 0)"
  using assms(4,5)
  by (auto simp add: sparse_entry_makeF[OF assms(1,2,3)] intro!: sum.neutral)

lemma dense_blocks:
  "map (slice 0 n) (slice 0 n (F_dense n beta)) = np_zeros2 n n"
  "map (slice n (2 * n)) (slice 0 n (F_dense n beta)) = np_eye n"
  "map (slice 0 n) (slice n (2 * n) (F_dense n beta)) = mat_neg (np_eye n)"
  "map (slice n (2 * n)) (slice n (2 * n) (F_dense n beta)) = mat_neg (mat_scale beta (np_eye n))"
  by (simp_all add: F_dense_rows slice_def np_zeros2_def np_eye_def mat_neg_def mat_scale_def
      o_def map_replicate_const)

lemma mat_neg_scale: "mat_neg (mat_scale s A) = mat_scale (- s) A"
  by (simp add: mat_neg_def mat_scale_def o_def)

lemma makeFMatrix_shape:
  assumes "1 \<le> length (self_flat_wdot self)" "n = length (self_flat_wdot self)"
  shows "\<exists>S. makeFMatrix self = Inr S \<and> dims S = (2 * n, 2 * n)
             \<and> length (indices S) = 3 * n \<and> length (vals S) = 3 * n \<and> distinct (indices S)
             \<and> nnz S = (if self_beta self = 0 then 2 * n else 3 * n)"
  unfolding makeFMatrix_explicit[OF assms(1)] Let_def
  using assms(2)
  by (auto simp add: nnz_def distinct_map inj_on_def)

lemma upt_2: "[0..<2] = [0, 1]"
  by (simp add: upt_rec)

lemma F25: "F_dense 2 5 = [[0, 0, 1, 0], [0, 0, 0, 1], [- 1, 0, - 5, 0], [0, - 1, 0, - 5]]"
  by (simp add: F_dense_rows upt_2 numeral_2_eq_2)

text \<open>
  Claim C4, as amended. For every \<open>n \<ge> 1\<close> and every \<open>beta\<close>, the dense matrix built in
  \<open>ham_mod_batch\<close> has the blocks \<open>F[0:n,0:n] = 0\<close>, \<open>F[0:n,n:2n] = I\<close>,
  \<open>F[n:2n,0:n] = -I\<close> and \<open>F[n:2n,n:2n] = -beta*I\<close>. For an object whose velocity vector
  has \<open>n\<close> entries, \<open>makeFMatrix\<close> returns a sparse \<open>2n\<close> by \<open>2n\<close> matrix that stores
  exactly \<open>3n\<close> values at pairwise distinct indices and has the same four blocks. Of the
  stored values, \<open>3n\<close> are nonzero when \<open>beta \<noteq> 0\<close> and \<open>2n\<close> when \<open>beta = 0\<close>. The
  matrix depends on the object through \<open>n\<close> and \<open>beta\<close> only, so not on the weights; the
  dense matrix is a function of \<open>n\<close> and \<open>beta\<close> by construction.
\<close>

theorem F_matrix_structure:
  assumes "1 \<le> n" and "length (self_flat_wdot self) = n"
  shows "map (slice 0 n) (slice 0 n (F_dense n beta)) = np_zeros2 n n
       \<and> map (slice n (2 * n)) (slice 0 n (F_dense n beta)) = np_eye n
       \<and> map (slice 0 n) (slice n (2 * n) (F_dense n beta)) = mat_neg (np_eye n)
       \<and> map (slice n (2 * n)) (slice n (2 * n) (F_dense n beta)) = mat_scale (- beta) (np_eye n)
       \<and> (\<exists>S. makeFMatrix self = Inr S \<and> dims S = (2 * n, 2 * n)
               \<and> length (indices S) = 3 * n \<and> length (vals S) = 3 * n \<and> distinct (indices S)
               \<and> nnz S = (if self_beta self = 0 then 2 * n else 3 * n)
               \<and> (\<forall>i<n. \<forall>j<n.
                     sparse_entry S i j = 0
                   \<and> sparse_entry S i (n + j) = (if i = j then 1 else 0)
                   \<and> sparse_entry S (n + i) j = (if i = j then - 1 else 0)
                   \<and> sparse_entry S (n + i) (n + j) = (if i = j then - self_beta self else 0)))
       \<and> (\<forall>other. length (self_flat_wdot other) = n \<and> self_beta other = self_beta self
               \<longrightarrow> makeFMatrix other = makeFMatrix self)"
proof -
  have n: "1 \<le> length (self_flat_wdot self)" "n = length (self_flat_wdot self)"
    using assms by simp_all
  obtain S where S: "makeFMatrix self = Inr S" "dims S = (2 * n, 2 * n)"
      "length (indices S) = 3 * n" "length (vals S) = 3 * n" "distinct (indices S)"
      "nnz S = (if self_beta self = 0 then 2 * n else 3 * n)"
    using makeFMatrix_shape[OF n] by blast
  have blocks: "\<forall>i<n. \<forall>j<n.
                     sparse_entry S i j = 0
                   \<and> sparse_entry S i (n + j) = (if i = j then 1 else 0)
                   \<and> sparse_entry S (n + i) j = (if i = j then - 1 else 0)
                   \<and> sparse_entry S (n + i) (n + j) = (if i = j then - self_beta self else 0)"
    using sparse_blocks[OF S(1) n] by simp
  have indep: "\<forall>other. length (self_flat_wdot other) = n \<and> self_beta other = self_beta self
               \<longrightarrow> makeFMatrix other = makeFMatrix self"
    using n by (simp add: makeFMatrix_def)
  show ?thesis
    using S blocks indep by (simp add: dense_blocks mat_neg_scale)
qed

theorem F_matrix_structure_witness:
  "F_dense 2 5 = [[0, 0, 1, 0], [0, 0, 0, 1], [- 1, 0, - 5, 0], [0, - 1, 0, - 5]]
   \<and> map (slice 2 (2 * 2)) (slice 2 (2 * 2) (F_dense 2 5)) = mat_scale (- 5) (np_eye 2)
   \<and> (\<exists>S. makeFMatrix \<lparr> self_predictor = [(''w'', Parameter, Tensor [2] [1, 2])], self_len = 1,
                        self_lenp = 1, self_hparams = [1, 2, 3], self_dJ = [], self_dJddw = [],
                        self_beta = 5, self_flat_w = [1, 2], self_flat_wdot = [3, 4],
                        self_flat_dJ = [], self_flat_dJddw = [], self_count = 0,
                        self_time = 0 \<rparr> = Inr S
          \<and> nnz S = 6 \<and> sparse_entry S 3 3 = - 5)"
proof -
  let ?self = "\<lparr> self_predictor = [(''w'', Parameter, Tensor [2] [1, 2])], self_len = 1,
                        self_lenp = 1, self_hparams = [1, 2, 3], self_dJ = [], self_dJddw = [],
                        self_beta = 5, self_flat_w = [1, 2], self_flat_wdot = [3, 4],
                        self_flat_dJ = [], self_flat_dJddw = [], self_count = 0,
                        self_time = 0 \<rparr> :: real phnn"
  have h: "(1 :: nat) \<le> 2" "length (self_flat_wdot ?self) = 2" by simp_all
  note T = F_matrix_structure[OF h, of 5]
  from T have D: "map (slice 2 (2 * 2)) (slice 2 (2 * 2) (F_dense 2 5)) = mat_scale (- 5) (np_eye 2)"
    by blast
  from T obtain S where S: "makeFMatrix ?self = Inr S"
      "nnz S = (if self_beta ?self = 0 then 2 * 2 else 3 * 2)"
      "\<forall>i<2. \<forall>j<2. sparse_entry S (2 + i) (2 + j) = (if i = j then - self_beta ?self else 0)"
    by blast
  from S(3) have "sparse_entry S (2 + 1) (2 + 1) = - self_beta ?self"
    by (metis one_less_numeral_iff semiring_norm(76))
  then have e: "sparse_entry S 3 3 = - 5" by simp
  have n: "nnz S = 6" using S(2) by simp
  show ?thesis
    using F25 D S(1) n e by blast
qed

text \<open>
  The claim as stated gives the sparse matrix exactly \<open>3n\<close> nonzero entries for every
  \<open>beta\<close>. With \<open>beta = 0\<close> the \<open>n\<close> values stored in the lower right block are zero:
  for \<open>n = 1\<close> the matrix stores three values and two of them are nonzero.
\<close>

theorem F_matrix_nonzero_entries_counterexample:
  "makeFMatrix \<lparr> self_predictor = [(''w'', Parameter, Tensor [1] [1])], self_len = 1,
                 self_lenp = 1, self_hparams = [1, 2, 3], self_dJ = [], self_dJddw = [],
                 self_beta = 0, self_flat_w = [1], self_flat_wdot = [3],
                 self_flat_dJ = [], self_flat_dJddw = [], self_count = 0, self_time = 0 \<rparr>
     = Inr \<lparr> indices = [(0, 1), (1, 0), (1, 1)], vals = [1, - 1, 0], dims = (2, 2) \<rparr>
   \<and> nnz \<lparr> indices = [(0, 1), (1, 0), (1, 1)], vals = [1, - 1, 0], dims = (2, 2) \<rparr> = 2
   \<and> 3 * (1 :: nat) \<noteq> 2"
  by (simp add: makeFMatrix_def sparse_FloatTensor_def nnz_def)

subsection \<open>Batch averaging\<close>

lemma loss_batch_loop_sum:
  assumes "\<forall>i\<in>set js. i < length U \<and> i < length Yh \<and> loss x (U ! i) (Yh ! i) a b c = Inr (l i)"
  shows "loss_batch_loop js x U Yh a b c acc = Inr (acc + sum_list (map l js))"
  using assms by (induction js arbitrary: acc) (simp_all add: add.assoc)

lemma np_add_12:
  "length acc = 12 \<Longrightarrow> length g = 12 \<Longrightarrow>
   np_binop (+) acc g = Inr (map (\<lambda>j. acc ! j + g ! j) [0..<12])"
  by (simp add: np_binop_def) (intro nth_equalityI; simp)

lemma gradient_batch_loop_sum:
  assumes "length acc = 12"
    and "\<forall>i\<in>set js. i < length U \<and> i < length Yh \<and> gradient x (U ! i) (Yh ! i) a b c = Inr (g i)"
  shows "gradient_batch_loop js x U Yh a b c acc
           = Inr (map (\<lambda>j. acc ! j + sum_list (map (\<lambda>i. g i ! j) js)) [0..<12])"
  using assms
proof (induction js arbitrary: acc)
  case Nil
  then show ?case by (simp add: list_eq_iff_nth_eq)
next
  case (Cons i js)
  have gi: "gradient x (U ! i) (Yh ! i) a b c = Inr (g i)" and li: "length (g i) = 12"
    using Cons.prems(2) gradient_length[of x "U ! i" "Yh ! i" a b c "g i"] by simp_all
  let ?s = "map (\<lambda>j. acc ! j + g i ! j) [0..<12]"
  have s: "np_binop (+) acc (g i) = Inr ?s"
    using np_add_12[OF Cons.prems(1) li] .
  have "gradient_batch_loop js x U Yh a b c ?s
          = Inr (map (\<lambda>j. ?s ! j + sum_list (map (\<lambda>i. g i ! j) js)) [0..<12])"
    using Cons.IH[of ?s] Cons.prems(2) by simp
  then show ?case
    using Cons.prems(2) gi s by (simp add: add.assoc)
qed

lemma upt_12: "[0..<12] = [0, 1, 2, 3, 4, 5, 6, 7, 8, 9, 10, 11]"
  by (simp add: upt_rec)

text \<open>
  Claim C5, as amended. For every batch size \<open>k \<ge> 1\<close> and batches \<open>U\<close> and \<open>Yh\<close> of length at least
  \<open>k\<close>: when the loss of the samples \<open>0, ..., k - 1\<close> is \<open>l 0, ..., l (k - 1)\<close>,
  \<open>loss_batch\<close> returns their arithmetic mean, for a state of any length; and when the
  state has length 12 and the gradient of the samples is \<open>g 0, ..., g (k - 1)\<close>,
  \<open>gradient_batch\<close> returns their arithmetic mean, entry by entry.
\<close>

theorem batch_is_arithmetic_mean:
  assumes "1 \<le> k" "k \<le> length U" "k \<le> length Yh"
  shows "((\<forall>i<k. loss x (U ! i) (Yh ! i) a b c = Inr (l i))
            \<longrightarrow> loss_batch k x U Yh a b c = Inr ((\<Sum>i<k. l i) / real k))
       \<and> (length x = 12 \<and> (\<forall>i<k. gradient x (U ! i) (Yh ! i) a b c = Inr (g i))
            \<longrightarrow> gradient_batch k x U Yh a b c
                  = Inr (map (\<lambda>j. (\<Sum>i<k. g i ! j) / real k) [0..<12]))"
proof (intro conjI impI)
  assume "\<forall>i<k. loss x (U ! i) (Yh ! i) a b c = Inr (l i)"
  then have "\<forall>i\<in>set [0..<k]. i < length U \<and> i < length Yh
               \<and> loss x (U ! i) (Yh ! i) a b c = Inr (l i)"
    using assms by simp
  from loss_batch_loop_sum[OF this, of 0] show
    "loss_batch k x U Yh a b c = Inr ((\<Sum>i<k. l i) / real k)"
    using assms(1)
    by (simp add: loss_batch_def interv_sum_list_conv_sum_set_nat atLeast0LessThan)
next
  assume h: "length x = 12 \<and> (\<forall>i<k. gradient x (U ! i) (Yh ! i) a b c = Inr (g i))"
  then have "\<forall>i\<in>set [0..<k]. i < length U \<and> i < length Yh
               \<and> gradient x (U ! i) (Yh ! i) a b c = Inr (g i)"
    using assms by simp
  from gradient_batch_loop_sum[OF _ this, of "replicate 12 0"] show
    "gradient_batch k x U Yh a b c = Inr (map (\<lambda>j. (\<Sum>i<k. g i ! j) / real k) [0..<12])"
    using assms(1) h
    by (simp add: gradient_batch_def interv_sum_list_conv_sum_set_nat atLeast0LessThan o_def)
qed

theorem batch_is_arithmetic_mean_witness:
  "loss_batch 2 [1, 2, 3, 4, 5, 6, 7, 8, 9, 10, 11, 12] [[1, 2], [0, 1]] [[3, 4], [1, 1]] 1 2 3
     = Inr (3179 / 2)
   \<and> gradient_batch 2 [1, 2, 3, 4, 5, 6, 7, 8, 9, 10, 11, 12] [[1, 2], [0, 1]] [[3, 4], [1, 1]]
       1 2 3
     = Inr [11, 26, 27, 40, 72, 62, 28, 32, 36, 40, 44, 48]"
proof -
  let ?x = "[1, 2, 3, 4, 5, 6, 7, 8, 9, 10, 11, 12] :: vec"
  let ?U = "[[1, 2], [0, 1]] :: vec list"
  let ?Yh = "[[3, 4], [1, 1]] :: vec list"
  let ?l = "\<lambda>i :: nat. if i = 0 then 1672 else (1507 :: real)"
  let ?g = "\<lambda>i :: nat. if i = 0 then [16, 32, 28, 56, 94, 68, 28, 32, 36, 40, 44, 48]
                        else [6, 20, 26, 24, 50, 56, 28, 32, 36, 40, 44, 48 :: real]"
  have k: "(1 :: nat) \<le> 2" "2 \<le> length ?U" "2 \<le> length ?Yh" by simp_all
  have two: "i < 2 \<longleftrightarrow> i = 0 \<or> i = 1" for i :: nat by auto
  have hl: "\<forall>i<2. loss ?x (?U ! i) (?Yh ! i) 1 2 3 = Inr (?l i)"
    by (auto simp: two loss_explicit)
  have hg: "length ?x = 12 \<and> (\<forall>i<2. gradient ?x (?U ! i) (?Yh ! i) 1 2 3 = Inr (?g i))"
    by (auto simp: two gradient_explicit)
  have s: "{..<2 :: nat} = {0, 1}" by auto
  show ?thesis
    using batch_is_arithmetic_mean[OF k, of ?x 1 2 3 ?l ?g] hl hg
    by (simp add: s upt_12)
qed

text \<open>
  The claim as stated, for every state, fails for \<open>gradient_batch\<close>: \<open>gradient\<close> returns
  twelve entries whatever the length of the state, and \<open>gradient_batch\<close> adds them to
  \<open>zeros(2 * n)\<close>. On a state of length 14 and a batch of one sample the gradient of the
  sample exists, and is its own mean, but the addition of 14 and 12 entries raises
  \<open>ValueError\<close>.
\<close>

theorem batch_mean_any_state_counterexample:
  "gradient [1, 2, 3, 4, 5, 6, 7, 8, 9, 10, 11, 12, 13, 14] [1, 2] [3, 4] 1 2 3
     = Inr [16, 32, 28, 56, 94, 68, 32, 36, 40, 44, 48, 52]
   \<and> gradient_batch 1 [1, 2, 3, 4, 5, 6, 7, 8, 9, 10, 11, 12, 13, 14] [[1, 2]] [[3, 4]] 1 2 3
     = Inl ValueError"
  by (simp add: gradient_batch_def gradient_def simple_net_def slice_def np_binop_def)

subsection \<open>Equilibrium\<close>

lemma gradient_velocity_half:
  assumes "gradient x u yh a b c = Inr dJ" "length x = 12"
  shows "drop 6 dJ = map (\<lambda>v. 2 * b * v) (drop 6 x)"
proof -
  have "2 \<le> length u" "2 \<le> length yh"
    using assms(1) by (auto simp: gradient_def Let_def split: if_splits)
  from gradient_explicit[OF assms(2) this, of a b c] assms(1)
  have dJ: "drop 6 dJ = [2 * b * x ! 6, 2 * b * x ! 7, 2 * b * x ! 8, 2 * b * x ! 9,
                         2 * b * x ! 10, 2 * b * x ! 11]"
    by auto
  obtain x0 x1 x2 x3 x4 x5 x6 x7 x8 x9 x10 x11 where
    x: "x = [x0, x1, x2, x3, x4, x5, x6, x7, x8, x9, x10, x11]"
    using vec12[OF assms(2)] by blast
  show ?thesis unfolding dJ by (simp add: x)
qed

lemma replicate_6: "replicate 6 v = [v, v, v, v, v, v]"
  by (simp add: numeral_eq_Suc)

lemma take_drop_zero_12:
  assumes "length v = 12" "take 6 v = replicate 6 0" "drop 6 v = replicate 6 0"
  shows "v = replicate 12 (0 :: real)"
proof -
  have "v = take 6 v @ drop 6 v" by simp
  also have "\<dots> = replicate 6 0 @ replicate 6 0" using assms by simp
  also have "\<dots> = replicate 12 0" by (simp add: replicate_add[symmetric])
  finally show ?thesis .
qed

lemma gradient_batch_loop_velocity_zero:
  assumes "gradient_batch_loop js x U Yh a b c acc = Inr r"
    and "length x = 12" "drop 6 x = replicate 6 0"
    and "length acc = 12" "drop 6 acc = replicate 6 0"
  shows "length r = 12 \<and> drop 6 r = replicate 6 0"
  using assms
proof (induction js arbitrary: acc)
  case Nil
  then show ?case by simp
next
  case (Cons i js)
  from Cons.prems(1) obtain g s where
    g: "gradient x (U ! i) (Yh ! i) a b c = Inr g" and
    s: "np_binop (+) acc g = Inr s" and
    r: "gradient_batch_loop js x U Yh a b c s = Inr r"
    by (auto split: if_splits sum.splits)
  have lg: "length g = 12" using gradient_length[OF g] .
  have dg: "drop 6 g = replicate 6 0"
    using gradient_velocity_half[OF g Cons.prems(2)] Cons.prems(3) by simp
  have s': "s = map2 (+) acc g"
    using s Cons.prems(4) lg by (simp add: np_binop_def)
  have ls: "length s = 12" using s' Cons.prems(4) lg by simp
  have ds: "drop 6 s = replicate 6 0"
    unfolding s' drop_map drop_zip Cons.prems(5) dg by (simp add: replicate_6)
  show ?case using Cons.IH[OF r Cons.prems(2,3) ls ds] .
qed

lemma gradient_batch_velocity_zero:
  assumes "gradient_batch bs x U Yh a b c = Inr dJ"
    and "length x = 12" "drop 6 x = replicate 6 0"
  shows "length dJ = 12 \<and> drop 6 dJ = replicate 6 0"
proof -
  from assms(1,2) obtain r where
    r: "gradient_batch_loop [0..<bs] x U Yh a b c (replicate 12 0) = Inr r" and
    dJ: "dJ = map (\<lambda>v. v / real bs) r"
    by (auto simp: gradient_batch_def Let_def split: sum.splits if_splits)
  have z: "length (replicate 12 (0 :: real)) = 12" "drop 6 (replicate 12 (0 :: real)) = replicate 6 0"
    by simp_all
  have "length r = 12 \<and> drop 6 r = replicate 6 0"
    using gradient_batch_loop_velocity_zero[OF r assms(2,3) z] .
  then show ?thesis
    unfolding dJ drop_map by (simp add: replicate_6)
qed

text \<open>
  Claim C9, as amended. For every state \<open>x\<close> of length 12 with zero velocity half and
  every \<open>b > 0\<close>:
  when the weight half of the gradient that \<open>gradient\<close> returns is zero,
  \<open>hamiltonian_model\<close> returns the zero vector; and when the weight half of the gradient
  that \<open>gradient_batch\<close> returns is zero, \<open>ham_mod_batch\<close> returns the zero vector. The
  weight half of the gradient includes the regularisation term \<open>2 * c * w\<close>.
\<close>

theorem equilibrium_has_zero_derivative:
  assumes "length x = 12" "drop 6 x = replicate 6 0" "0 < b"
  shows "(gradient x u yh a b c = Inr dJ \<and> take 6 dJ = replicate 6 0
            \<longrightarrow> hamiltonian_model x t u yh beta a b c = Inr (replicate 12 0))
       \<and> (gradient_batch bs x U Yh a b c = Inr dJb \<and> take 6 dJb = replicate 6 0
            \<longrightarrow> ham_mod_batch x t bs U Yh beta a b c = Inr (replicate 12 0))"
proof (intro conjI impI)
  assume h: "gradient x u yh a b c = Inr dJ \<and> take 6 dJ = replicate 6 0"
  have "drop 6 dJ = replicate 6 0"
    using gradient_velocity_half[of x u yh a b c dJ] h assms(1,2) by simp
  then have z: "dJ = replicate 12 0"
    using take_drop_zero_12[of dJ] gradient_length[of x u yh a b c dJ] h by simp
  show "hamiltonian_model x t u yh beta a b c = Inr (replicate 12 0)"
    using h assms(1,3)
    by (simp add: hamiltonian_model_def z slice_def np_binop_def replicate_12)
next
  assume h: "gradient_batch bs x U Yh a b c = Inr dJb \<and> take 6 dJb = replicate 6 0"
  have "length dJb = 12 \<and> drop 6 dJb = replicate 6 0"
    using gradient_batch_velocity_zero[of bs x U Yh a b c dJb] h assms(1,2) by simp
  then have z: "dJb = replicate 12 0"
    using take_drop_zero_12[of dJb] h by simp
  show "ham_mod_batch x t bs U Yh beta a b c = Inr (replicate 12 0)"
    using h assms(1)
    by (simp add: ham_mod_batch_blocks z replicate_12)
qed

theorem equilibrium_has_zero_derivative_witness:
  "hamiltonian_model [1, 0, 0, 0, 1, 0, 0, 0, 0, 0, 0, 0] 0 [1, 2] [1, 2] 5 1 1 0
     = Inr (replicate 12 0)
   \<and> ham_mod_batch [1, 0, 0, 0, 1, 0, 0, 0, 0, 0, 0, 0] 0 2 [[1, 2], [3, 4]] [[1, 2], [3, 4]]
       5 1 1 0
     = Inr (replicate 12 0)"
proof -
  let ?x = "[1, 0, 0, 0, 1, 0, 0, 0, 0, 0, 0, 0] :: vec"
  have h: "length ?x = 12" "drop 6 ?x = replicate 6 0" "(0 :: real) < 1"
    by (simp_all add: replicate_6)
  have g: "gradient ?x [1, 2] [1, 2] 1 1 0 = Inr (replicate 12 0)"
    by (simp add: gradient_explicit replicate_12)
  have gb: "gradient_batch 2 ?x [[1, 2], [3, 4]] [[1, 2], [3, 4]] 1 1 0 = Inr (replicate 12 0)"
    by (simp add: gradient_batch_def gradient_explicit np_binop_def upt_rec replicate_12)
  show ?thesis
    using equilibrium_has_zero_derivative[OF h, of "[1, 2]" "[1, 2]" 1 0 "replicate 12 0" 0 5
        2 "[[1, 2], [3, 4]]" "[[1, 2], [3, 4]]" "replicate 12 0"] g gb
    by (simp add: replicate_12 replicate_6)
qed

text \<open>
  The claim as stated, for every state, fails: on a state of length 14 with zero velocity
  half at which \<open>gradient\<close> returns the zero vector, \<open>hamiltonian_model\<close> subtracts
  slices of seven and five entries and raises \<open>ValueError\<close>, and \<open>ham_mod_batch\<close> raises
  it inside \<open>gradient_batch\<close>.
\<close>

theorem equilibrium_any_state_counterexample:
  "drop 7 [1, 0, 0, 0, 1, 0, 0, 0, 0, 0, 0, 0, 0, 0 :: real] = [0, 0, 0, 0, 0, 0, 0]
   \<and> (0 :: real) < 1
   \<and> gradient [1, 0, 0, 0, 1, 0, 0, 0, 0, 0, 0, 0, 0, 0] [1, 2] [1, 2] 1 1 0
       = Inr [0, 0, 0, 0, 0, 0, 0, 0, 0, 0, 0, 0]
   \<and> hamiltonian_model [1, 0, 0, 0, 1, 0, 0, 0, 0, 0, 0, 0, 0, 0] 0 [1, 2] [1, 2] 5 1 1 0
       = Inl ValueError
   \<and> ham_mod_batch [1, 0, 0, 0, 1, 0, 0, 0, 0, 0, 0, 0, 0, 0] 0 1 [[1, 2]] [[1, 2]] 5 1 1 0
       = Inl ValueError"
  by (simp add: hamiltonian_model_def ham_mod_batch_def gradient_batch_def gradient_def
      simple_net_def slice_def np_binop_def)

section \<open>Properties of the state codec and the evaluators\<close>

subsection \<open>The state codec\<close>

lemma flatten_loop_concat:
  "k \<le> length itr \<Longrightarrow> flatten_loop k itr w = Inr (w @ concat (map data (take k itr)))"
  by (induction k itr w rule: flatten_loop.induct) (simp_all add: view_flat_def)

lemma flattenParamVector_concat:
  assumes "parameters (self_predictor self) \<noteq> []"
    and "self_lenp self = length (parameters (self_predictor self))"
  shows "flattenParamVector self = Inr (concat (map data (parameters (self_predictor self))))"
proof -
  obtain p itr where p: "parameters (self_predictor self) = p # itr"
    using assms(1) by (cases "parameters (self_predictor self)") auto
  show ?thesis
    using assms(2) by (simp add: flattenParamVector_def p flatten_loop_concat view_flat_def)
qed

lemma dict_set_fresh: "key \<notin> fst ` set d \<Longrightarrow> dict_set d key v = d @ [(key, v)]"
  by (induction d) auto

lemma makeStateDict_loop_shapes:
  assumes "\<forall>e\<in>set es. length (data (snd e)) = prod_list (shape (snd e))"
    and "distinct (map fst (d @ es))"
    and "map (\<lambda>e. (fst e, shape (snd e))) qs = map (\<lambda>e. (fst e, shape (snd e))) es"
  shows "makeStateDict_loop qs (pre @ concat (map (\<lambda>e. data (snd e)) es)) (length pre) d
           = Inr (d @ es)"
  using assms
proof (induction es arbitrary: qs pre d)
  case Nil
  then show ?case by simp
next
  case (Cons e es)
  obtain key t where e: "e = (key, t)" by (cases e)
  obtain q qs' where qs: "qs = q # qs'" "fst q = key" "shape (snd q) = shape t"
      "map (\<lambda>e. (fst e, shape (snd e))) qs' = map (\<lambda>e. (fst e, shape (snd e))) es"
    using Cons.prems(3) e by (cases qs) auto
  have wf: "length (data t) = prod_list (shape t)" using Cons.prems(1) e by simp
  have sl: "slice (length pre) (length pre + numel (snd q))
              (pre @ concat (map (\<lambda>e. data (snd e)) (e # es))) = data t"
    using wf qs(3) by (simp add: slice_def numel_def e)
  have fresh: "key \<notin> fst ` set d" using Cons.prems(2) e by auto
  have d': "distinct (map fst ((d @ [(key, t)]) @ es))" using Cons.prems(2) e by simp
  have "makeStateDict_loop qs' ((pre @ data t) @ concat (map (\<lambda>e. data (snd e)) es))
          (length (pre @ data t)) (d @ [(key, t)]) = Inr ((d @ [(key, t)]) @ es)"
    using Cons.IH[OF _ d' qs(4), of "pre @ data t"] Cons.prems(1) by simp
  then show ?case
    using sl wf fresh qs(2,3) by (simp add: qs(1) e view_def dict_set_fresh Let_def numel_def)
qed

lemma no_buffers:
  assumes "\<forall>e\<in>set p. fst (snd e) = Parameter"
  shows "parameters p = map (\<lambda>e. snd (snd e)) p"
    and "map data (parameters p) = map (\<lambda>e. data (snd e)) (state_dict p)"
proof -
  have f: "filter (\<lambda>e. fst (snd e) = Parameter) p = p"
    using assms by (auto simp: filter_id_conv)
  show "parameters p = map (\<lambda>e. snd (snd e)) p"
    by (simp add: parameters_def f split_def)
  then show "map data (parameters p) = map (\<lambda>e. data (snd e)) (state_dict p)"
    by (simp add: state_dict_def split_def o_def)
qed

lemma load_state_dict_shapes:
  assumes "distinct (map fst p)"
    and "map (\<lambda>e. (fst e, fst (snd e), shape (snd (snd e)))) q
           = map (\<lambda>e. (fst e, fst (snd e), shape (snd (snd e)))) p"
  shows "load_state_dict q (state_dict p) = Inr p"
proof -
  have len: "length q = length p" using assms(2) by (rule map_eq_imp_length_eq)
  have nth: "fst (q ! i) = fst (p ! i) \<and> fst (snd (q ! i)) = fst (snd (p ! i))
               \<and> shape (snd (snd (q ! i))) = shape (snd (snd (p ! i)))" if "i < length p" for i
  proof -
    have "map (\<lambda>e. (fst e, fst (snd e), shape (snd (snd e)))) q ! i
            = map (\<lambda>e. (fst e, fst (snd e), shape (snd (snd e)))) p ! i"
      using assms(2) by simp
    then show ?thesis using that len by simp
  qed
  have keys: "map fst q = map fst p"
    using len nth by (intro nth_equalityI) simp_all
  have m: "map_of (state_dict p) (fst e) = Some (snd (snd e))" if "e \<in> set p" for e
  proof -
    have "(fst e, snd (snd e)) \<in> set (state_dict p)"
      using that by (force simp: state_dict_def split_def)
    moreover have "distinct (map fst (state_dict p))"
      using assms(1) by (simp add: state_dict_def split_def o_def)
    ultimately show ?thesis by simp
  qed
  have k: "set (map fst (state_dict p)) = set (map fst q)"
    unfolding keys by (simp add: state_dict_def split_def o_def)
  have look: "map_of (state_dict p) (fst (q ! i)) = Some (snd (snd (p ! i)))" if "i < length p" for i
    using m[of "p ! i"] nth[OF that] that by simp
  have ex: "\<not> list_ex (\<lambda>(key, k, t). case map_of (state_dict p) key of None \<Rightarrow> True
                                      | Some v \<Rightarrow> shape v \<noteq> shape t) q"
  proof -
    have "\<forall>e\<in>set q. (case map_of (state_dict p) (fst e) of None \<Rightarrow> False
                       | Some v \<Rightarrow> shape v = shape (snd (snd e)))"
    proof
      fix e assume "e \<in> set q"
      then obtain i where i: "i < length q" "e = q ! i" by (auto simp: in_set_conv_nth)
      then show "case map_of (state_dict p) (fst e) of None \<Rightarrow> False
                       | Some v \<Rightarrow> shape v = shape (snd (snd e))"
        using look[of i] nth[of i] len by simp
    qed
    then show ?thesis by (auto simp: list_ex_iff split: option.splits)
  qed
  have "map (\<lambda>(key, k, t). (key, k, the (map_of (state_dict p) key))) q = p"
    using len look nth by (intro nth_equalityI) (simp_all add: split_def prod_eq_iff)
  then show ?thesis
    unfolding load_state_dict_def using k ex by simp
qed

text \<open>
  Claim C6. For every parameter set of a predictor (at least one parameter, no buffer,
  every tensor well formed, the keys distinct as in any dictionary) and an object whose
  \<open>lenp\<close> counts the parameters, as the constructor sets it: \<open>flattenParamVector\<close> returns
  the concatenation \<open>w\<close> of the parameters in their order. Unflattening reads the values
  from \<open>w\<close> and takes only the keys and shapes from the predictor at hand: whatever
  predictor \<open>q\<close> with the same keys, kinds and shapes the object holds when
  \<open>makeStateDict\<close> runs (the flattened one, or one with any other entries), with \<open>w\<close>
  as flat weight vector \<open>makeStateDict\<close> returns exactly the \<open>state_dict()\<close> of the
  flattened predictor: every key with a tensor of the original shape and the original
  entries, in the original order. \<open>loadStateDict\<close> then puts the flattened predictor
  back in place of \<open>q\<close>. The entry type is arbitrary: the entries are moved, never
  computed on.
\<close>

theorem flatten_unflatten_roundtrip:
  assumes "parameters (self_predictor self) \<noteq> []"
    and "self_lenp self = length (parameters (self_predictor self))"
    and "\<forall>e\<in>set (self_predictor self).
           fst (snd e) = Parameter \<and> length (data (snd (snd e))) = prod_list (shape (snd (snd e)))"
    and "distinct (map fst (self_predictor self))"
    and "map (\<lambda>e. (fst e, fst (snd e), shape (snd (snd e)))) q
           = map (\<lambda>e. (fst e, fst (snd e), shape (snd (snd e)))) (self_predictor self)"
  shows "\<exists>w. flattenParamVector self = Inr w
           \<and> w = concat (map data (parameters (self_predictor self)))
           \<and> makeStateDict (self \<lparr> self_predictor := q, self_flat_w := w \<rparr>)
               = Inr (state_dict (self_predictor self))
           \<and> loadStateDict (self \<lparr> self_predictor := q, self_flat_w := w \<rparr>)
               = Inr (self \<lparr> self_flat_w := w \<rparr>)"
proof -
  let ?p = "self_predictor self"
  let ?w = "concat (map data (parameters ?p))"
  have nb: "\<forall>e\<in>set ?p. fst (snd e) = Parameter" using assms(3) by blast
  have wf: "\<forall>e\<in>set (state_dict ?p). length (data (snd e)) = prod_list (shape (snd e))"
    using assms(3) by (auto simp: state_dict_def)
  have ds: "distinct (map fst ([] @ state_dict ?p))"
    using assms(4) by (simp add: state_dict_def split_def o_def)
  have sh: "map (\<lambda>e. (fst e, shape (snd e))) (state_dict q)
              = map (\<lambda>e. (fst e, shape (snd e))) (state_dict ?p)"
  proof -
    have "map (\<lambda>t. (fst t, snd (snd t))) (map (\<lambda>e. (fst e, fst (snd e), shape (snd (snd e)))) q)
            = map (\<lambda>t. (fst t, snd (snd t)))
                (map (\<lambda>e. (fst e, fst (snd e), shape (snd (snd e)))) ?p)"
      using assms(5) by (rule arg_cong)
    then show ?thesis by (simp add: state_dict_def split_def o_def)
  qed
  have w: "?w = [] @ concat (map (\<lambda>e. data (snd e)) (state_dict ?p))"
    using no_buffers(2)[OF nb] by simp
  have m: "makeStateDict (self \<lparr> self_predictor := q, self_flat_w := ?w \<rparr>) = Inr (state_dict ?p)"
    using makeStateDict_loop_shapes[OF wf ds sh, of "[]"]
    by (simp add: makeStateDict_def w)
  have l: "loadStateDict (self \<lparr> self_predictor := q, self_flat_w := ?w \<rparr>)
             = Inr (self \<lparr> self_flat_w := ?w \<rparr>)"
    using m load_state_dict_shapes[OF assms(4,5)] by (simp add: loadStateDict_def)
  show ?thesis
    using flattenParamVector_concat[OF assms(1,2)] m l by simp
qed

theorem flatten_unflatten_roundtrip_witness:
  "flattenParamVector
     \<lparr> self_predictor = [(''dense_layers.0.weight'', Parameter, Tensor [2, 2] [1, 2, 3, 4 :: real]),
                         (''dense_layers.0.bias'', Parameter, Tensor [2] [5, 6])],
       self_len = 2, self_lenp = 2, self_hparams = [1, 2, 3], self_dJ = [], self_dJddw = [],
       self_beta = 5, self_flat_w = [], self_flat_wdot = [], self_flat_dJ = [],
       self_flat_dJddw = [], self_count = 0, self_time = 0 \<rparr>
     = Inr [1, 2, 3, 4, 5, 6]
   \<and> makeStateDict
     \<lparr> self_predictor = [(''dense_layers.0.weight'', Parameter, Tensor [2, 2] [9, 9, 9, 9 :: real]),
                         (''dense_layers.0.bias'', Parameter, Tensor [2] [9, 9])],
       self_len = 2, self_lenp = 2, self_hparams = [1, 2, 3], self_dJ = [], self_dJddw = [],
       self_beta = 5, self_flat_w = [1, 2, 3, 4, 5, 6], self_flat_wdot = [], self_flat_dJ = [],
       self_flat_dJddw = [], self_count = 0, self_time = 0 \<rparr>
     = Inr [(''dense_layers.0.weight'', Tensor [2, 2] [1, 2, 3, 4]),
            (''dense_layers.0.bias'', Tensor [2] [5, 6])]
   \<and> loadStateDict
     \<lparr> self_predictor = [(''dense_layers.0.weight'', Parameter, Tensor [2, 2] [9, 9, 9, 9 :: real]),
                         (''dense_layers.0.bias'', Parameter, Tensor [2] [9, 9])],
       self_len = 2, self_lenp = 2, self_hparams = [1, 2, 3], self_dJ = [], self_dJddw = [],
       self_beta = 5, self_flat_w = [1, 2, 3, 4, 5, 6], self_flat_wdot = [], self_flat_dJ = [],
       self_flat_dJddw = [], self_count = 0, self_time = 0 \<rparr>
     = Inr \<lparr> self_predictor = [(''dense_layers.0.weight'', Parameter, Tensor [2, 2] [1, 2, 3, 4]),
                         (''dense_layers.0.bias'', Parameter, Tensor [2] [5, 6])],
       self_len = 2, self_lenp = 2, self_hparams = [1, 2, 3], self_dJ = [], self_dJddw = [],
       self_beta = 5, self_flat_w = [1, 2, 3, 4, 5, 6], self_flat_wdot = [], self_flat_dJ = [],
       self_flat_dJddw = [], self_count = 0, self_time = 0 \<rparr>"
proof -
  let ?self = "\<lparr> self_predictor = [(''dense_layers.0.weight'', Parameter, Tensor [2, 2] [1, 2, 3, 4 :: real]),
                         (''dense_layers.0.bias'', Parameter, Tensor [2] [5, 6])],
       self_len = 2, self_lenp = 2, self_hparams = [1, 2, 3], self_dJ = [], self_dJddw = [],
       self_beta = 5, self_flat_w = [], self_flat_wdot = [], self_flat_dJ = [],
       self_flat_dJddw = [], self_count = 0, self_time = 0 \<rparr>"
  let ?q = "[(''dense_layers.0.weight'', Parameter, Tensor [2, 2] [9, 9, 9, 9 :: real]),
             (''dense_layers.0.bias'', Parameter, Tensor [2] [9, 9])]"
  have h1: "parameters (self_predictor ?self) \<noteq> []"
    and h2: "self_lenp ?self = length (parameters (self_predictor ?self))"
    and h3: "\<forall>e\<in>set (self_predictor ?self).
           fst (snd e) = Parameter \<and> length (data (snd (snd e))) = prod_list (shape (snd (snd e)))"
    and h4: "distinct (map fst (self_predictor ?self))"
    and h5: "map (\<lambda>e. (fst e, fst (snd e), shape (snd (snd e)))) ?q
           = map (\<lambda>e. (fst e, fst (snd e), shape (snd (snd e)))) (self_predictor ?self)"
    by (simp_all add: parameters_def)
  show ?thesis
    using flatten_unflatten_roundtrip[OF h1 h2 h3 h4 h5]
    by (simp add: parameters_def state_dict_def)
qed

subsection \<open>The accuracy evaluators\<close>

lemma argmax_loop_exp:
  "argmax_loop (map exp vs) i best_i (exp best) = argmax_loop vs i best_i best"
  by (induction vs arbitrary: i best_i best) simp_all

lemma row_argmax_exp: "row_argmax (map exp row) = row_argmax row"
  by (cases row) (simp_all add: row_argmax_def argmax_loop_exp)

lemma torch_max_idx_rows:
  "\<forall>row\<in>set rows. row \<noteq> [] \<Longrightarrow>
   torch_max_idx (map (map exp) rows) = Inr (map (\<lambda>row. projr (row_argmax row)) rows)"
proof (induction rows)
  case Nil
  then show ?case by simp
next
  case (Cons row rows)
  obtain v vs where "row = v # vs" using Cons.prems by (cases row) auto
  then have "row_argmax (map exp row) = Inr (projr (row_argmax row))"
    unfolding row_argmax_exp by (simp add: row_argmax_def)
  then show ?case using Cons by simp
qed

lemma pred_accuracy_batch_count:
  "\<forall>i\<in>set js. i < length y \<Longrightarrow>
   pred_accuracy_batch js idx y (tot, cnt)
     = Inr (tot + length js, cnt + length (filter (\<lambda>i. int (idx ! i) = y ! i) js))"
  by (induction js arbitrary: tot cnt) simp_all

lemma filter_index_zip:
  assumes "length xs \<le> length ys"
  shows "length (filter (\<lambda>i. P (xs ! i) (ys ! i)) [0..<length xs])
           = length (filter (\<lambda>s. P (fst s) (snd s)) (zip xs ys))"
proof -
  have "zip xs ys = map (\<lambda>i. (xs ! i, ys ! i)) [0..<length xs]"
    using assms by (intro nth_equalityI) auto
  then show ?thesis by (simp add: filter_map o_def)
qed

lemma pred_accuracy_loop_count:
  assumes "\<forall>d\<in>set testloader. length (fwd (fst d)) \<le> length (snd d)
             \<and> (\<forall>row\<in>set (fwd (fst d)). row \<noteq> [])"
  shows "pred_accuracy_loop fwd testloader (tot, cnt)
           = Inr (tot + length (concat (map (\<lambda>d. zip (fwd (fst d)) (snd d)) testloader)),
                  cnt + length (filter (\<lambda>s. int (projr (row_argmax (fst s))) = snd s)
                                  (concat (map (\<lambda>d. zip (fwd (fst d)) (snd d)) testloader))))"
  using assms
proof (induction testloader arbitrary: tot cnt)
  case Nil
  then show ?case by simp
next
  case (Cons d rest)
  let ?rows = "fwd (fst d)" and ?y = "snd d"
  let ?idx = "map (\<lambda>row. projr (row_argmax row)) ?rows"
  have le: "length ?rows \<le> length ?y" and ne: "\<forall>row\<in>set ?rows. row \<noteq> []"
    using Cons.prems by simp_all
  have m: "torch_max_idx (map (map exp) ?rows) = Inr ?idx"
    using torch_max_idx_rows[OF ne] .
  have js: "\<forall>i\<in>set [0..<length ?idx]. i < length ?y" using le by simp
  have c: "length (filter (\<lambda>i. int (?idx ! i) = ?y ! i) [0..<length ?idx])
             = length (filter (\<lambda>s. int (projr (row_argmax (fst s))) = snd s) (zip ?rows ?y))"
  proof -
    have "length (filter (\<lambda>i. int (?idx ! i) = ?y ! i) [0..<length ?idx])
          = length (filter (\<lambda>i. int (projr (row_argmax (?rows ! i))) = ?y ! i) [0..<length ?rows])"
      by (intro arg_cong[where f = length] filter_cong) simp_all
    also have "\<dots> = length (filter (\<lambda>s. int (projr (row_argmax (fst s))) = snd s) (zip ?rows ?y))"
      using filter_index_zip[OF le, of "\<lambda>row l. int (projr (row_argmax row)) = l"] .
    finally show ?thesis .
  qed
  have b: "pred_accuracy_batch [0..<length ?idx] ?idx ?y (tot, cnt)
             = Inr (tot + length (zip ?rows ?y),
                    cnt + length (filter (\<lambda>s. int (projr (row_argmax (fst s))) = snd s)
                                    (zip ?rows ?y)))"
    unfolding pred_accuracy_batch_count[OF js] c using le by simp
  have r: "\<forall>d\<in>set rest. length (fwd (fst d)) \<le> length (snd d)
             \<and> (\<forall>row\<in>set (fwd (fst d)). row \<noteq> [])"
    using Cons.prems by simp
  show ?case
    using m b Cons.IH[OF r] by (simp add: add.assoc)
qed

lemma upt_0_2: "[0..<2] = [0, Suc 0]"
  by (simp add: upt_rec)

lemma test_two_samples:
  assumes "length yh = 2" "2 \<le> length Xh" "\<forall>i<2. simple_net (Xh ! i) x = Inr (y i)"
    and "\<forall>i<2. 2 \<le> length (yh ! i)"
  shows "test x Xh yh trained train_test =
           Inr (real ((if y 0 ! 0 > y 0 ! 1 \<and> yh ! 0 ! 0 > yh ! 0 ! 1 then 1 else 0)
                    + (if y 1 ! 0 > y 1 ! 1 \<and> yh ! 1 ! 0 > yh ! 1 ! 1 then 1 else 0)) * 100 / 2)"
proof -
  have s: "simple_net (Xh ! 0) x = Inr (y 0)" "simple_net (Xh ! Suc 0) x = Inr (y 1)"
    using assms(3) by simp_all
  have l: "\<not> length (yh ! 0) < 2" "\<not> length (yh ! Suc 0) < 2"
    using assms(4) by (simp_all add: not_less)
  have X: "\<not> length Xh \<le> 0" "\<not> length Xh \<le> Suc 0" using assms(2) by auto
  show ?thesis
    unfolding test_def Let_def assms(1) upt_0_2
    using s l X by simp
qed

text \<open>
  Claim C7, as amended. On every evaluation set of two samples:
  \<^item> the low-level evaluator \<open>test\<close> returns \<open>100.0\<close> when in both samples the first
    output is the larger one in the prediction and in the reference, and \<open>0.0\<close> when in
    neither sample the class with the larger output agrees between prediction and
    reference;
  \<^item> the high-level evaluator \<open>pred_accuracy\<close> returns the fraction of correct samples,
    a number between 0 and 1 and not a percentage: \<open>1.0\<close> when the arg-max class index of
    both samples equals the reference label, and \<open>0.0\<close> when that of neither does.

  Here \<open>y i\<close> is the output of the network on sample \<open>i\<close>, and the samples of a loader are
  the rows of the forward pass paired with their labels.
\<close>

theorem accuracy_on_two_samples:
  assumes "length yh = 2" "2 \<le> length Xh" "\<forall>i<2. simple_net (Xh ! i) x = Inr (y i)"
    and "\<forall>i<2. 2 \<le> length (yh ! i)"
    and "\<forall>d\<in>set testloader. length (fwd (fst d)) \<le> length (snd d)
           \<and> (\<forall>row\<in>set (fwd (fst d)). row \<noteq> [])"
    and "length (concat (map (\<lambda>d. zip (fwd (fst d)) (snd d)) testloader)) = 2"
  shows "((\<forall>i<2. y i ! 0 > y i ! 1 \<and> yh ! i ! 0 > yh ! i ! 1)
            \<longrightarrow> test x Xh yh trained train_test = Inr 100)
       \<and> ((\<forall>i<2. (y i ! 0 > y i ! 1) \<noteq> (yh ! i ! 0 > yh ! i ! 1))
            \<longrightarrow> test x Xh yh trained train_test = Inr 0)
       \<and> ((\<forall>s\<in>set (concat (map (\<lambda>d. zip (fwd (fst d)) (snd d)) testloader)).
               \<exists>k. row_argmax (fst s) = Inr k \<and> int k = snd s)
            \<longrightarrow> pred_accuracy fwd testloader = Inr 1)
       \<and> ((\<forall>s\<in>set (concat (map (\<lambda>d. zip (fwd (fst d)) (snd d)) testloader)).
               \<forall>k. row_argmax (fst s) = Inr k \<longrightarrow> int k \<noteq> snd s)
            \<longrightarrow> pred_accuracy fwd testloader = Inr 0)"
proof (intro conjI impI)
  let ?S = "concat (map (\<lambda>d. zip (fwd (fst d)) (snd d)) testloader)"
  let ?ok = "\<lambda>s. int (projr (row_argmax (fst s))) = snd s"
  note T = test_two_samples[OF assms(1-4), of trained train_test]
  note P = pred_accuracy_loop_count[OF assms(5), of 0 0]
  have ne: "\<forall>s\<in>set ?S. \<exists>k. row_argmax (fst s) = Inr k"
  proof
    fix s assume "s \<in> set ?S"
    then obtain d where "d \<in> set testloader" "s \<in> set (zip (fwd (fst d)) (snd d))" by auto
    then have "fst s \<noteq> []" using assms(5) by (cases s) (auto dest: set_zip_leftD)
    then show "\<exists>k. row_argmax (fst s) = Inr k"
      by (cases "fst s") (simp_all add: row_argmax_def)
  qed
  {
    assume "\<forall>i<2. y i ! 0 > y i ! 1 \<and> yh ! i ! 0 > yh ! i ! 1"
    then have "y 0 ! 0 > y 0 ! 1 \<and> yh ! 0 ! 0 > yh ! 0 ! 1"
      "y 1 ! 0 > y 1 ! 1 \<and> yh ! 1 ! 0 > yh ! 1 ! 1" by simp_all
    then show "test x Xh yh trained train_test = Inr 100" unfolding T by simp
  next
    assume "\<forall>i<2. (y i ! 0 > y i ! 1) \<noteq> (yh ! i ! 0 > yh ! i ! 1)"
    then have "(y 0 ! 0 > y 0 ! 1) \<noteq> (yh ! 0 ! 0 > yh ! 0 ! 1)"
      "(y 1 ! 0 > y 1 ! 1) \<noteq> (yh ! 1 ! 0 > yh ! 1 ! 1)" by simp_all
    then show "test x Xh yh trained train_test = Inr 0" unfolding T by auto
  next
    assume "\<forall>s\<in>set ?S. \<exists>k. row_argmax (fst s) = Inr k \<and> int k = snd s"
    then have "\<forall>s\<in>set ?S. ?ok s" by fastforce
    then have "filter ?ok ?S = ?S" by (simp add: filter_id_conv)
    then show "pred_accuracy fwd testloader = Inr 1"
      using P assms(6) by (simp add: pred_accuracy_def)
  next
    assume "\<forall>s\<in>set ?S. \<forall>k. row_argmax (fst s) = Inr k \<longrightarrow> int k \<noteq> snd s"
    then have "\<forall>s\<in>set ?S. \<not> ?ok s" using ne by fastforce
    then have "filter ?ok ?S = []" by (simp add: filter_empty_conv)
    then show "pred_accuracy fwd testloader = Inr 0"
      using P assms(6) by (simp add: pred_accuracy_def)
  }
qed

theorem accuracy_on_two_samples_witness:
  "test [1, 0, 0, 0, 1, 0, 0, 0, 0, 0, 0, 0] [[2, 1], [3, 0]] [[1, 0], [1, 0]] True False = Inr 100
   \<and> pred_accuracy id [([[0, - 1], [- 1, - 2]], [0, 0])] = Inr 1
   \<and> test [1, 0, 0, 0, 1, 0, 0, 0, 0, 0, 0, 0] [[2, 1], [0, 3]] [[0, 1], [1, 0]] True False = Inr 0
   \<and> pred_accuracy id [([[0, - 1]], [1]), ([[- 2, - 1]], [0])] = Inr 0"
proof -
  let ?x = "[1, 0, 0, 0, 1, 0, 0, 0, 0, 0, 0, 0] :: vec"
  let ?XhA = "[[2, 1], [3, 0]] :: vec list" and ?yhA = "[[1, 0], [1, 0]] :: vec list"
  let ?XhB = "[[2, 1], [0, 3]] :: vec list" and ?yhB = "[[0, 1], [1, 0]] :: vec list"
  let ?yA = "\<lambda>i :: nat. if i = 0 then [2, 1] else [3, 0 :: real]"
  let ?yB = "\<lambda>i :: nat. if i = 0 then [2, 1] else [0, 3 :: real]"
  let ?LA = "[([[0, - 1], [- 1, - 2]], [0, 0])] :: (mat \<times> int list) list"
  let ?LB = "[([[0, - 1]], [1]), ([[- 2, - 1]], [0])] :: (mat \<times> int list) list"
  have two: "i < 2 \<longleftrightarrow> i = 0 \<or> i = 1" for i :: nat by auto
  have A: "length ?yhA = 2" "2 \<le> length ?XhA" "\<forall>i<2. simple_net (?XhA ! i) ?x = Inr (?yA i)"
      "\<forall>i<2. 2 \<le> length (?yhA ! i)"
      "\<forall>d\<in>set ?LA. length (id (fst d)) \<le> length (snd d) \<and> (\<forall>row\<in>set (id (fst d)). row \<noteq> [])"
      "length (concat (map (\<lambda>d. zip (id (fst d)) (snd d)) ?LA)) = 2"
    by (auto simp: two simple_net_def)
  have B: "length ?yhB = 2" "2 \<le> length ?XhB" "\<forall>i<2. simple_net (?XhB ! i) ?x = Inr (?yB i)"
      "\<forall>i<2. 2 \<le> length (?yhB ! i)"
      "\<forall>d\<in>set ?LB. length (id (fst d)) \<le> length (snd d) \<and> (\<forall>row\<in>set (id (fst d)). row \<noteq> [])"
      "length (concat (map (\<lambda>d. zip (id (fst d)) (snd d)) ?LB)) = 2"
    by (auto simp: two simple_net_def)
  have pA: "\<forall>i<2. ?yA i ! 0 > ?yA i ! 1 \<and> ?yhA ! i ! 0 > ?yhA ! i ! 1"
    by (auto simp: two)
  have pB: "\<forall>i<2. (?yB i ! 0 > ?yB i ! 1) \<noteq> (?yhB ! i ! 0 > ?yhB ! i ! 1)"
    by (auto simp: two)
  have qA: "\<forall>s\<in>set (concat (map (\<lambda>d. zip (id (fst d)) (snd d)) ?LA)).
               \<exists>k. row_argmax (fst s) = Inr k \<and> int k = snd s"
    by (simp add: row_argmax_def)
  have qB: "\<forall>s\<in>set (concat (map (\<lambda>d. zip (id (fst d)) (snd d)) ?LB)).
               \<forall>k. row_argmax (fst s) = Inr k \<longrightarrow> int k \<noteq> snd s"
    by (auto simp: row_argmax_def)
  show ?thesis
    using accuracy_on_two_samples[OF A, of True False] accuracy_on_two_samples[OF B, of True False]
      pA pB qA qB
    by blast
qed

text \<open>
  The claim as stated fails in both evaluators. In \<open>test\<close> a sample counts only when the
  first output is the larger one in prediction and reference: on two samples whose
  prediction and reference both favour the second class the result is \<open>0.0\<close>, not
  \<open>100.0\<close>. \<open>pred_accuracy\<close> returns \<open>count/tot\<close>: with both samples correct the result
  is \<open>1.0\<close>, not \<open>100.0\<close>.
\<close>

theorem accuracy_counterexample:
  "simple_net [0, 1] [1, 0, 0, 0, 1, 0, 0, 0, 0, 0, 0, 0] = Inr [0, 1]
   \<and> simple_net [0, 2] [1, 0, 0, 0, 1, 0, 0, 0, 0, 0, 0, 0] = Inr [0, 2]
   \<and> test [1, 0, 0, 0, 1, 0, 0, 0, 0, 0, 0, 0] [[0, 1], [0, 2]] [[0, 1], [0, 1]] True False = Inr 0
   \<and> row_argmax [0, - 1] = Inr 0 \<and> row_argmax [- 2, - 1] = Inr 1
   \<and> pred_accuracy id [([[0, - 1], [- 2, - 1]], [0, 1])] = Inr 1"
  by (simp add: simple_net_def test_def upt_0_2 row_argmax_def pred_accuracy_def)

section \<open>Properties of the low-level training loop\<close>

subsection \<open>Batching\<close>

lemma length_concat_rows:
  "\<forall>row\<in>set X. length row = k \<Longrightarrow> length (concat X) = length X * k"
  by (induction X) simp_all

lemma length_chunk: "length (chunk m k xs) = m"
  by (induction m arbitrary: xs) simp_all

lemma chunk_elem_length:
  "length xs = m * k \<Longrightarrow> \<forall>c\<in>set (chunk m k xs). length c = k"
proof (induction m arbitrary: xs)
  case 0
  then show ?case by simp
next
  case (Suc m)
  have "length (drop k xs) = m * k" using Suc.prems by simp
  from Suc.IH[OF this] show ?case using Suc.prems by simp
qed

lemma chunk_elem_subset:
  "\<forall>c\<in>set (chunk m k xs). set c \<subseteq> set xs"
proof (induction m arbitrary: xs)
  case 0
  then show ?case by simp
next
  case (Suc m)
  have "\<forall>c\<in>set (chunk m k (drop k xs)). set c \<subseteq> set xs"
    using Suc.IH[of "drop k xs"] set_drop_subset[of k xs] by blast
  then show ?case using set_take_subset[of k xs] by simp
qed

lemma reshape3_batches:
  assumes "\<forall>row\<in>set X. length row = 2" "length X = N_batch * bs"
  shows "\<exists>Ub. reshape3 N_batch bs 2 X = Inr Ub \<and> length Ub = N_batch
              \<and> (\<forall>B\<in>set Ub. length B = bs \<and> (\<forall>row\<in>set B. length row = 2))"
proof -
  let ?flat = "concat X"
  let ?rows = "chunk (N_batch * bs) 2 ?flat"
  let ?Ub = "chunk N_batch bs ?rows"
  have lf: "length ?flat = N_batch * bs * 2"
    using length_concat_rows[OF assms(1)] assms(2) by simp
  have r2: "\<forall>row\<in>set ?rows. length row = 2"
    using chunk_elem_length[OF lf] .
  have lr: "length ?rows = N_batch * bs" by (simp add: length_chunk)
  have lb: "\<forall>B\<in>set ?Ub. length B = bs" using chunk_elem_length[OF lr] .
  have sb: "\<forall>B\<in>set ?Ub. set B \<subseteq> set ?rows" using chunk_elem_subset .
  have "reshape3 N_batch bs 2 X = Inr ?Ub" using lf by (simp add: reshape3_def)
  moreover have "length ?Ub = N_batch" by (simp add: length_chunk)
  moreover have "\<forall>B\<in>set ?Ub. length B = bs \<and> (\<forall>row\<in>set B. length row = 2)"
    using lb sb r2 by blast
  ultimately show ?thesis by blast
qed

lemma reshape3_uneven:
  assumes "\<forall>row\<in>set X. length row = 2" "0 < bs" "\<not> bs dvd length X"
  shows "reshape3 (length X div bs) bs 2 X = Inl ValueError"
proof -
  have "length X div bs * bs \<noteq> length X"
    using assms(3) by (metis dvd_triv_right)
  then show ?thesis
    using length_concat_rows[OF assms(1)] by (simp add: reshape3_def)
qed

text \<open>
  Claim C8. In \<open>train\<close>, on a dataset \<open>X\<close> of two-dimensional samples, a batch size
  \<open>bs > 0\<close> that does not divide the number of samples is rejected: the reshape of \<open>X\<close>
  into batches raises \<open>ValueError\<close>, numpy's shape-mismatch error. This is the result for
  every solver, every target array and every initial state, so it is raised before the
  solver is called, before the records are created, and no prefix of the dataset is
  processed.
\<close>

theorem train_rejects_uneven_batch:
  assumes "0 < bs" "\<not> bs dvd length X" "\<forall>row\<in>set X. length row = 2"
  shows "train ode X y bs epochs x0 a b c beta t = Inl ValueError"
  using assms(1) reshape3_uneven[OF assms(3,1,2)]
  by (simp add: train_def)

theorem train_rejects_uneven_batch_witness:
  "train (\<lambda>f y0 ts. Inl RuntimeError) (replicate 10 [0, 0]) (replicate 10 [0, 0]) 4 3
     [1, 0, 0, 0, 1, 0, 0, 0, 0, 0, 0, 0] 1 1 1 1 [0, 1] = Inl ValueError"
proof -
  have h: "(0 :: nat) < 4" "\<not> (4 :: nat) dvd length (replicate 10 [0, 0 :: real])"
    "\<forall>row\<in>set (replicate 10 [0, 0 :: real]). length row = 2"
    by simp_all
  show ?thesis
    using train_rejects_uneven_batch[OF h] .
qed

subsection \<open>The lengths of the records\<close>

lemma loss_batch_returns:
  assumes "length x = 12" "0 < bs" "length U = bs" "length Yh = bs"
    and "\<forall>row\<in>set U. length row = 2" "\<forall>row\<in>set Yh. length row = 2"
  shows "\<exists>l. loss_batch bs x U Yh a b c = Inr l"
proof -
  have "\<forall>i\<in>set [0..<bs]. i < length U \<and> i < length Yh
          \<and> loss x (U ! i) (Yh ! i) a b c = Inr (projr (loss x (U ! i) (Yh ! i) a b c))"
    using assms by (simp add: loss_explicit)
  from loss_batch_loop_sum[OF this, of 0] show ?thesis
    using assms(2) by (simp add: loss_batch_def)
qed

lemma ham_mod_batch_returns:
  assumes "length x = 12" "0 < bs" "length U = bs" "length Yh = bs"
    and "\<forall>row\<in>set U. length row = 2" "\<forall>row\<in>set Yh. length row = 2"
  shows "\<exists>d. ham_mod_batch x s bs U Yh beta a b c = Inr d \<and> length d = 12"
proof -
  have "\<forall>i\<in>set [0..<bs]. i < length U \<and> i < length Yh
          \<and> gradient x (U ! i) (Yh ! i) a b c = Inr (projr (gradient x (U ! i) (Yh ! i) a b c))"
    using assms by (simp add: gradient_explicit)
  from gradient_batch_loop_sum[OF _ this, of "replicate 12 0"]
  obtain dJ where dJ: "gradient_batch bs x U Yh a b c = Inr dJ" "length dJ = 12"
    using assms(1,2) by (simp add: gradient_batch_def)
  show ?thesis
    using dJ assms(1) by (simp add: ham_mod_batch_blocks)
qed

lemma Ji_loop_returns:
  assumes "\<forall>r\<in>set sol. length r = 12" "0 < bs" "length U = bs" "length Yh = bs"
    and "\<forall>row\<in>set U. length row = 2" "\<forall>row\<in>set Yh. length row = 2"
  shows "\<exists>Ji. Ji_loop sol bs U Yh a b c = Inr Ji \<and> length Ji = length sol"
  using assms(1)
proof (induction sol)
  case Nil
  then show ?case by simp
next
  case (Cons r sol)
  have "length r = 12" using Cons.prems by simp
  from loss_batch_returns[OF this assms(2-6), of a b c]
  obtain l where l: "loss_batch bs r U Yh a b c = Inr l" by blast
  obtain Ji where "Ji_loop sol bs U Yh a b c = Inr Ji" "length Ji = length sol"
    using Cons by auto
  then show ?case using l by simp
qed

lemma odeint_contractD:
  assumes "odeint_contract ode" "length y0 = 12"
    and "\<forall>x s. length x = 12 \<longrightarrow> (\<exists>d. f x s = Inr d \<and> length d = 12)"
  shows "\<exists>sol. ode f y0 ts = Inr sol \<and> length sol = length ts \<and> (\<forall>r\<in>set sol. length r = 12)"
  using assms unfolding odeint_contract_def by simp

lemma train_batches_lengths:
  assumes "odeint_contract ode" "0 < bs"
    and "\<forall>i\<in>set js. i < length Ub \<and> i < length Yhb"
    and "\<forall>B\<in>set Ub. length B = bs \<and> (\<forall>row\<in>set B. length row = 2)"
    and "\<forall>B\<in>set Yhb. length B = bs \<and> (\<forall>row\<in>set B. length row = 2)"
    and "xf \<noteq> []" "\<forall>r\<in>set xf. length r = 12" "J \<noteq> []"
  shows "\<exists>xf' tf' J'. train_batches ode js Ub Yhb bs a b c beta t (xf, tf, J) = Inr (xf', tf', J')
           \<and> length xf' = length xf + length js * length t
           \<and> length tf' = length tf + length js * length t
           \<and> length J' = length J + length js * length t
           \<and> xf' \<noteq> [] \<and> (\<forall>r\<in>set xf'. length r = 12) \<and> J' \<noteq> []"
  using assms(3,6,7,8)
proof (induction js arbitrary: xf tf J)
  case Nil
  then show ?case by simp
next
  case (Cons i js)
  let ?U = "Ub ! i" and ?Yh = "Yhb ! i" and ?x0 = "last xf"
  have i: "i < length Ub" "i < length Yhb" using Cons.prems(1) by simp_all
  have U: "length ?U = bs" "\<forall>row\<in>set ?U. length row = 2"
    using assms(4) i(1) nth_mem by blast+
  have Yh: "length ?Yh = bs" "\<forall>row\<in>set ?Yh. length row = 2"
    using assms(5) i(2) nth_mem by blast+
  have x0: "length ?x0 = 12" using Cons.prems(2,3) last_in_set by blast
  have total: "\<forall>x s. length x = 12 \<longrightarrow>
                 (\<exists>d. ham_mod_batch x s bs ?U ?Yh beta a b c = Inr d \<and> length d = 12)"
    using ham_mod_batch_returns[OF _ assms(2) U(1) Yh(1) U(2) Yh(2)] by blast
  obtain sol where sol: "ode (\<lambda>x s. ham_mod_batch x s bs ?U ?Yh beta a b c) ?x0 t = Inr sol"
      "length sol = length t" "\<forall>r\<in>set sol. length r = 12"
    using odeint_contractD[OF assms(1) x0 total] by blast
  obtain Ji where Ji: "Ji_loop sol bs ?U ?Yh a b c = Inr Ji" "length Ji = length sol"
    using Ji_loop_returns[OF sol(3) assms(2) U(1) Yh(1) U(2) Yh(2)] by blast
  have p1: "\<forall>i\<in>set js. i < length Ub \<and> i < length Yhb" using Cons.prems(1) by simp
  have p2: "xf @ sol \<noteq> []" using Cons.prems(2) by simp
  have p3: "\<forall>r\<in>set (xf @ sol). length r = 12" using Cons.prems(3) sol(3) by auto
  have p4: "J @ Ji \<noteq> []" using Cons.prems(4) by simp
  from Cons.IH[OF p1 p2 p3 p4, of "tf @ map (\<lambda>s. s + last tf) t"]
  obtain xf' tf' J' where r:
      "train_batches ode js Ub Yhb bs a b c beta t
         (xf @ sol, tf @ map (\<lambda>s. s + last tf) t, J @ Ji) = Inr (xf', tf', J')"
      "length xf' = length (xf @ sol) + length js * length t"
      "length tf' = length (tf @ map (\<lambda>s. s + last tf) t) + length js * length t"
      "length J' = length (J @ Ji) + length js * length t"
      "xf' \<noteq> []" "\<forall>r\<in>set xf'. length r = 12" "J' \<noteq> []"
    by blast
  have step: "train_batches ode (i # js) Ub Yhb bs a b c beta t (xf, tf, J) = Inr (xf', tf', J')"
    using i sol(1,3) Ji(1) r(1) by (simp add: Let_def list_all_iff)
  show ?case
    using step r(2-7) sol(2) Ji(2) by simp
qed

lemma train_epochs_lengths:
  assumes "odeint_contract ode" "0 < bs"
    and "length Ub = N_batch" "length Yhb = N_batch"
    and "\<forall>B\<in>set Ub. length B = bs \<and> (\<forall>row\<in>set B. length row = 2)"
    and "\<forall>B\<in>set Yhb. length B = bs \<and> (\<forall>row\<in>set B. length row = 2)"
    and "xf \<noteq> []" "\<forall>r\<in>set xf. length r = 12" "J \<noteq> []"
  shows "\<exists>xf' tf' J' xep' Jep'.
           train_epochs ode es N_batch Ub Yhb bs a b c beta t (xf, tf, J, xep, Jep)
             = Inr (xf', tf', J', xep', Jep')
           \<and> length xf' = length xf + length es * N_batch * length t
           \<and> length tf' = length tf + length es * N_batch * length t
           \<and> length J' = length J + length es * N_batch * length t
           \<and> length xep' = length xep + length es
           \<and> length Jep' = length Jep + length es"
  using assms(7,8,9)
proof (induction es arbitrary: xf tf J xep Jep)
  case Nil
  then show ?case by simp
next
  case (Cons j es)
  have idx: "\<forall>i\<in>set [0..<N_batch]. i < length Ub \<and> i < length Yhb"
    using assms(3,4) by simp
  from train_batches_lengths[OF assms(1,2) idx assms(5,6) Cons.prems, of a b c beta t tf]
  obtain xf1 tf1 J1 where b:
      "train_batches ode [0..<N_batch] Ub Yhb bs a b c beta t (xf, tf, J) = Inr (xf1, tf1, J1)"
      "length xf1 = length xf + N_batch * length t"
      "length tf1 = length tf + N_batch * length t"
      "length J1 = length J + N_batch * length t"
      "xf1 \<noteq> []" "\<forall>r\<in>set xf1. length r = 12" "J1 \<noteq> []"
    by auto
  from Cons.IH[OF b(5,6,7), of tf1 "xep @ [last xf1]" "Jep @ [last J1]"]
  obtain xf' tf' J' xep' Jep' where r:
      "train_epochs ode es N_batch Ub Yhb bs a b c beta t
         (xf1, tf1, J1, xep @ [last xf1], Jep @ [last J1]) = Inr (xf', tf', J', xep', Jep')"
      "length xf' = length xf1 + length es * N_batch * length t"
      "length tf' = length tf1 + length es * N_batch * length t"
      "length J' = length J1 + length es * N_batch * length t"
      "length xep' = length (xep @ [last xf1]) + length es"
      "length Jep' = length (Jep @ [last J1]) + length es"
    by blast
  have step: "train_epochs ode (j # es) N_batch Ub Yhb bs a b c beta t (xf, tf, J, xep, Jep)
                = Inr (xf', tf', J', xep', Jep')"
    using b(1) r(1) by simp
  show ?case
    using step r(2-6) b(2-4) by (simp add: algebra_simps)
qed

text \<open>
  Claim C10. For a solver that meets \<open>odeint_contract\<close>, every non-empty dataset \<open>X\<close> of
  two-dimensional samples with targets \<open>y\<close> of the same shape, every batch size \<open>bs > 0\<close>
  dividing \<open>len(X)\<close>, every initial state of length 12, every epoch count \<open>E \<ge> 1\<close> and
  every time grid \<open>t\<close> of length \<open>L \<ge> 2\<close>: \<open>train\<close> returns, and the records \<open>tf\<close>,
  \<open>xf\<close> and \<open>J\<close> it returns all have length \<open>E * (len(X) / bs) * L - 1\<close>, while \<open>xep\<close>
  has exactly \<open>E\<close> rows. The product is at least 2, so the subtraction is exact.
\<close>

theorem train_record_lengths:
  assumes "odeint_contract ode"
    and "0 < bs" "bs dvd length X" "X \<noteq> []"
    and "\<forall>row\<in>set X. length row = 2"
    and "length y = length X" "\<forall>row\<in>set y. length row = 2"
    and "length x0 = 12" "1 \<le> epochs" "2 \<le> length t"
  shows "\<exists>tf xf J xep Jep.
           train ode X y bs epochs x0 a b c beta t = Inr (tf, xf, J, xep, Jep)
           \<and> length tf = epochs * (length X div bs) * length t - 1
           \<and> length xf = epochs * (length X div bs) * length t - 1
           \<and> length J = epochs * (length X div bs) * length t - 1
           \<and> length xep = epochs
           \<and> 2 \<le> epochs * (length X div bs) * length t"
proof -
  let ?N = "length X div bs"
  have NX: "length X = ?N * bs" using assms(3) by simp
  have N0: "0 < ?N"
  proof (rule ccontr)
    assume "\<not> 0 < ?N"
    then have "length X = 0" using NX by simp
    then show False using assms(4) by simp
  qed
  obtain Ub where Ub: "reshape3 ?N bs 2 X = Inr Ub" "length Ub = ?N"
      "\<forall>B\<in>set Ub. length B = bs \<and> (\<forall>row\<in>set B. length row = 2)"
    using reshape3_batches[OF assms(5) NX] by blast
  have Ny: "length y = ?N * bs" using NX assms(6) by simp
  obtain Yhb where Yhb: "reshape3 ?N bs 2 y = Inr Yhb" "length Yhb = ?N"
      "\<forall>B\<in>set Yhb. length B = bs \<and> (\<forall>row\<in>set B. length row = 2)"
    using reshape3_batches[OF assms(7) Ny] by blast
  have U0: "length (Ub ! 0) = bs" "\<forall>row\<in>set (Ub ! 0). length row = 2"
    using Ub(2,3) N0 nth_mem[of 0 Ub] by auto
  have Y0: "length (Yhb ! 0) = bs" "\<forall>row\<in>set (Yhb ! 0). length row = 2"
    using Yhb(2,3) N0 nth_mem[of 0 Yhb] by auto
  obtain Jep0 where Jep0: "loss_batch bs x0 (Ub ! 0) (Yhb ! 0) a b c = Inr Jep0"
    using loss_batch_returns[OF assms(8,2) U0(1) Y0(1) U0(2) Y0(2)] by blast
  let ?xf = "[replicate 12 1, x0]"
  have i1: "?xf \<noteq> []" and i2: "\<forall>r\<in>set ?xf. length r = 12" and i3: "[0 :: real] \<noteq> []"
    using assms(8) by simp_all
  from train_epochs_lengths[OF assms(1,2) Ub(2) Yhb(2) Ub(3) Yhb(3) i1 i2 i3,
      of "[0..<epochs]" a b c beta t "[0]" ?xf "[Jep0]"]
  obtain xf' tf' J' xep' Jep' where r:
      "train_epochs ode [0..<epochs] ?N Ub Yhb bs a b c beta t (?xf, [0], [0], ?xf, [Jep0])
         = Inr (xf', tf', J', xep', Jep')"
      "length xf' = 2 + epochs * ?N * length t"
      "length tf' = 1 + epochs * ?N * length t"
      "length J' = 1 + epochs * ?N * length t"
      "length xep' = 2 + epochs"
    by auto
  have M: "2 \<le> epochs * ?N * length t"
  proof -
    have "1 \<le> epochs * ?N" using assms(9) N0 by (simp add: Suc_leI)
    then have "1 * 2 \<le> epochs * ?N * length t"
      using assms(10) by (intro mult_le_mono) simp_all
    then show ?thesis by simp
  qed
  have "train ode X y bs epochs x0 a b c beta t
          = Inr (slice 1 (length tf' - 1) tf', slice 2 (length xf' - 1) xf',
                 slice 1 (length J' - 1) J', slice 1 (length xep' - 1) xep', Jep')"
    using assms(2,8) N0 Ub(1) Yhb(1) Jep0 r(1) by (simp add: train_def Let_def)
  moreover have "length (slice 1 (length tf' - 1) tf') = epochs * ?N * length t - 1"
    using r(3) by (simp add: slice_def)
  moreover have "length (slice 2 (length xf' - 1) xf') = epochs * ?N * length t - 1"
    using r(2) by (simp add: slice_def)
  moreover have "length (slice 1 (length J' - 1) J') = epochs * ?N * length t - 1"
    using r(4) by (simp add: slice_def)
  moreover have "length (slice 1 (length xep' - 1) xep') = epochs"
    using r(5) by (simp add: slice_def)
  ultimately show ?thesis using M by blast
qed

theorem train_record_lengths_witness:
  "\<exists>tf xf J xep Jep.
     train (\<lambda>f y0 ts. Inr (map (\<lambda>s. y0) ts)) [[1, 2], [3, 4]] [[1, 2], [3, 4]] 1 2
       [1, 0, 0, 0, 1, 0, 0, 0, 0, 0, 0, 0] 1 1 0 5 [0, 1, 2] = Inr (tf, xf, J, xep, Jep)
     \<and> length tf = 11 \<and> length xf = 11 \<and> length J = 11 \<and> length xep = 2"
proof -
  let ?ode = "(\<lambda>f y0 ts. Inr (map (\<lambda>s. y0) ts)) :: odeint"
  have c: "odeint_contract ?ode" by (simp add: odeint_contract_def)
  have h: "(0 :: nat) < 1" "(1 :: nat) dvd length [[1, 2], [3, 4 :: real]]"
    "[[1, 2], [3, 4 :: real]] \<noteq> []" "\<forall>row\<in>set [[1, 2], [3, 4 :: real]]. length row = 2"
    "length [[1, 2], [3, 4 :: real]] = length [[1, 2], [3, 4 :: real]]"
    "\<forall>row\<in>set [[1, 2], [3, 4 :: real]]. length row = 2"
    "length [1, 0, 0, 0, 1, 0, 0, 0, 0, 0, 0, 0 :: real] = 12" "(1 :: nat) \<le> 2"
    "2 \<le> length [0, 1, 2 :: real]"
    by simp_all
  show ?thesis
    using train_record_lengths[OF c h, of 1 1 0 5] by simp
qed

end
